theory Spec2Isabelle
  imports Complex_Main "HOL-Library.Word"
begin

section \<open>Shared types\<close>

text \<open>
  A JavaScript string is a sequence of UTF-16 code units. String literals of the source
  are written as HOL strings and mapped to their code units by \<open>js\<close>.
\<close>

type_synonym js_string = "nat list"

definition js :: "string \<Rightarrow> js_string" where
  "js s = map of_char s"

text \<open>
  Objects of the browser and of the vendor library (media streams, audio contexts, the
  session promise, buffer source nodes) are opaque to the component: only their identity
  matters, so each is a handle.
\<close>

type_synonym handle = nat

text \<open>
  A function that reaches an \<open>await\<close> gives control back to the event loop. Each
  asynchronous function of the source is therefore modelled one synchronous segment at a
  time: a segment either finishes the call or suspends it, keeping what the continuation
  needs.
\<close>

datatype ('k, 's) segment = Finished 's | Awaiting 'k 's

section \<open>The live call component (LiveView)\<close>

datatype ConnectionState = DISCONNECTED | CONNECTING | CONNECTED | ERROR

text \<open>The argument of \<open>session.sendRealtimeInput\<close>: a MIME type and base64 data.\<close>

datatype Media = Media js_string js_string

text \<open>
  The calls into the browser and the vendor library that the properties below are about,
  recorded in the order in which the component makes them.
\<close>

datatype effect =
    SendRealtimeInput handle Media
  | SessionClose handle
  | AudioContextClose handle
  | TracksStop handle
  | ClearInterval nat
  | SetSrcObject handle
  | SourceStart handle real
  | SourceStop handle
  | ConsoleError js_string
  | ConsoleWarn js_string

text \<open>
  The component's React state (\<open>connectionState\<close>, \<open>error\<close>) and its refs. Times
  are JavaScript numbers (seconds of an audio context's clock); they are modelled as reals,
  so the rounding of double precision addition is not part of the model.
  \<open>sourceNodesRef\<close> is a JavaScript \<open>Set\<close>, which iterates in insertion order: it is
  a list without duplicates.
\<close>

record LiveView =
  connectionState :: ConnectionState
  error :: "js_string option"
  streamRef :: "handle option"
  audioContextRef :: "handle option"
  inputAudioContextRef :: "handle option"
  nextStartTimeRef :: real
  sessionPromiseRef :: "handle option"
  videoIntervalRef :: "nat option"
  sourceNodesRef :: "handle list"
  isConnectedRef :: bool
  effects :: "effect list"

definition emit :: "effect list \<Rightarrow> LiveView \<Rightarrow> LiveView" where
  "emit es s = s\<lparr>effects := effects s @ es\<rparr>"

subsection \<open>Camera\<close>

text \<open>
  \<open>startCamera\<close>: the argument \<open>gum\<close> is the outcome of the awaited
  \<open>getUserMedia\<close> call (\<open>None\<close> when it rejects: permission denied or no device),
  \<open>mounted\<close> says whether \<open>videoRef.current\<close> is set.
\<close>

definition startCamera :: "handle option \<Rightarrow> bool \<Rightarrow> LiveView \<Rightarrow> handle option \<times> LiveView" where
  "startCamera gum mounted s =
     (case gum of
        Some stream \<Rightarrow>
          (let s1 = s\<lparr>streamRef := Some stream\<rparr>;
               s2 = (if mounted then emit [SetSrcObject stream] s1 else s1)
           in (Some stream, s2))
      | None \<Rightarrow>
          (None,
           (emit [ConsoleError (js ''Error accessing media devices:'')] s)
             \<lparr>error := Some (js ''Camera/Mic permission denied or unavailable.'')\<rparr>))"

text \<open>
  \<open>stopCamera\<close>. The test \<open>if (videoIntervalRef.current)\<close> is on a number or
  null: the number 0 is as false as null.
\<close>

definition stopCamera :: "LiveView \<Rightarrow> LiveView" where
  "stopCamera s =
     (let s1 = (case streamRef s of
                  Some stream \<Rightarrow> (emit [TracksStop stream] s)\<lparr>streamRef := None\<rparr>
                | None \<Rightarrow> s)
      in (case videoIntervalRef s1 of
            Some i \<Rightarrow>
              (if i \<noteq> 0 then (emit [ClearInterval i] s1)\<lparr>videoIntervalRef := None\<rparr> else s1)
          | None \<Rightarrow> s1))"

subsection \<open>Teardown\<close>

text \<open>
  What \<open>await sessionPromiseRef.current\<close> followed by \<open>session.close()\<close> can do:
  the promise resolves to a session whose \<open>close\<close> returns or throws, or it rejects.
\<close>

datatype awaited_session = SessionResolved handle bool | SessionRejected

text \<open>The part of \<open>disconnect\<close> after the session has been dealt with.\<close>

definition disconnect_rest :: "LiveView \<Rightarrow> LiveView" where
  "disconnect_rest s =
     (let s1 = (case inputAudioContextRef s of
                  Some c \<Rightarrow> (emit [AudioContextClose c] s)\<lparr>inputAudioContextRef := None\<rparr>
                | None \<Rightarrow> s);
          s2 = (case audioContextRef s1 of
                  Some c \<Rightarrow> (emit [AudioContextClose c] s1)\<lparr>audioContextRef := None\<rparr>
                | None \<Rightarrow> s1)
      in (stopCamera s2)\<lparr>connectionState := DISCONNECTED\<rparr>)"

text \<open>
  The first segment of \<open>disconnect\<close>: it clears the flag, and suspends at the
  \<open>await\<close> only when there is a session promise; otherwise it runs to its end.
\<close>

definition disconnect_begin :: "LiveView \<Rightarrow> (handle, LiveView) segment" where
  "disconnect_begin s =
     (let s1 = s\<lparr>isConnectedRef := False\<rparr>
      in (case sessionPromiseRef s1 of
            Some p \<Rightarrow> Awaiting p s1
          | None \<Rightarrow> Finished (disconnect_rest s1)))"

text \<open>
  The continuation after the \<open>await\<close>. \<open>SessionResolved session throws\<close>: the
  session is closed, and an exception of \<open>close\<close> is caught and logged, as a rejection
  of the promise is.
\<close>

definition disconnect_resume :: "awaited_session \<Rightarrow> LiveView \<Rightarrow> LiveView" where
  "disconnect_resume r s =
     (let s1 = (case r of
                  SessionResolved session throws \<Rightarrow>
                    (if throws
                     then emit [SessionClose session, ConsoleWarn (js ''Error closing session'')] s
                     else emit [SessionClose session] s)
                | SessionRejected \<Rightarrow> emit [ConsoleWarn (js ''Error closing session'')] s)
      in disconnect_rest (s1\<lparr>sessionPromiseRef := None\<rparr>))"

text \<open>A call of \<open>disconnect\<close> that nothing interleaves with.\<close>

definition disconnect :: "awaited_session \<Rightarrow> LiveView \<Rightarrow> LiveView" where
  "disconnect r s =
     (case disconnect_begin s of
        Awaiting p s1 \<Rightarrow> disconnect_resume r s1
      | Finished s1 \<Rightarrow> s1)"

subsection \<open>Starting a call\<close>

text \<open>
  The values of \<open>useState\<close> and \<open>useRef\<close> when the component mounts.
\<close>

definition initial :: LiveView where
  "initial =
     \<lparr>connectionState = DISCONNECTED, error = None, streamRef = None,
      audioContextRef = None, inputAudioContextRef = None, nextStartTimeRef = 0,
      sessionPromiseRef = None, videoIntervalRef = None, sourceNodesRef = [],
      isConnectedRef = False, effects = []\<rparr>"

text \<open>
  What the \<open>try\<close> block of \<open>connectToLiveApi\<close> can do. Everything that can throw
  in it (the client and audio context constructors, the two awaited \<open>resume\<close> calls)
  comes before the first assignment to a ref; \<open>ai.live.connect\<close> is an asynchronous
  function and hands back a promise. \<open>SetupOk inputCtx outputCtx t promise\<close> carries
  the two new contexts, \<open>outputCtx.currentTime\<close> and the connect promise.
\<close>

datatype setup_outcome = SetupThrows | SetupOk handle handle real handle

text \<open>
  \<open>connectToLiveApi\<close>, run without anything interleaving at its awaits. The
  arguments \<open>gum\<close> and \<open>mounted\<close> are those of \<open>startCamera\<close>, which is only
  called when no stream is held.
\<close>

definition connectToLiveApi ::
  "js_string \<Rightarrow> handle option \<Rightarrow> bool \<Rightarrow> setup_outcome \<Rightarrow> LiveView \<Rightarrow> LiveView" where
  "connectToLiveApi apiKey gum mounted setup s =
     (if apiKey = [] then s\<lparr>error := Some (js ''API Key is missing.'')\<rparr>
      else
        (case (case streamRef s of
                 Some stream \<Rightarrow> (Some stream, s)
               | None \<Rightarrow> startCamera gum mounted s) of
           (None, s1) \<Rightarrow> s1
         | (Some stream, s1) \<Rightarrow>
             (let s2 = s1\<lparr>connectionState := CONNECTING, error := None\<rparr>
              in (case setup of
                    SetupOk inputCtx outputCtx t promise \<Rightarrow>
                      s2\<lparr>inputAudioContextRef := Some inputCtx,
                         audioContextRef := Some outputCtx,
                         nextStartTimeRef := t,
                         sessionPromiseRef := Some promise\<rparr>
                  | SetupThrows \<Rightarrow>
                      (emit [ConsoleError []] s2)
                        \<lparr>error := Some (js ''Failed to initialize Gemini Client.''),
                         connectionState := ERROR,
                         isConnectedRef := False\<rparr>))))"

text \<open>
  The call button is rendered, and so \<open>connectToLiveApi\<close> can be invoked, only in
  these states.
\<close>

definition callButtonShown :: "LiveView \<Rightarrow> bool" where
  "callButtonShown s = (connectionState s = DISCONNECTED \<or> connectionState s = ERROR)"

subsection \<open>Session callbacks\<close>

text \<open>
  \<open>onopen\<close>. Wiring the microphone to the script processor changes no state of the
  component. \<open>mounted\<close> says whether \<open>videoRef.current && canvasRef.current\<close> holds,
  \<open>timer\<close> is what \<open>window.setInterval\<close> returns.
\<close>

definition onopen :: "bool \<Rightarrow> nat \<Rightarrow> LiveView \<Rightarrow> LiveView" where
  "onopen mounted timer s =
     (let s1 = s\<lparr>connectionState := CONNECTED, isConnectedRef := True\<rparr>
      in if mounted then s1\<lparr>videoIntervalRef := Some timer\<rparr> else s1)"

definition onclose :: "LiveView \<Rightarrow> LiveView" where
  "onclose s = s\<lparr>connectionState := DISCONNECTED, isConnectedRef := False\<rparr>"

definition onerror :: "LiveView \<Rightarrow> LiveView" where
  "onerror s =
     (emit [ConsoleError (js ''Live API Error:'')] s)
       \<lparr>connectionState := ERROR, isConnectedRef := False,
        error := Some (js ''Connection error. Please try again.'')\<rparr>"

subsection \<open>Outbound audio\<close>

text \<open>
  \<open>onaudioprocess\<close>. \<open>createPcmBlob\<close> is imported from a module that is not among
  the sources, so it is a parameter. The callback either returns at its guard or registers
  a continuation on the session promise, which gets the encoded buffer.
\<close>

definition onaudioprocess ::
  "(real list \<Rightarrow> Media) \<Rightarrow> real list \<Rightarrow> LiveView \<Rightarrow> (handle \<times> Media, LiveView) segment" where
  "onaudioprocess createPcmBlob inputData s =
     (case sessionPromiseRef s of
        None \<Rightarrow> Finished s
      | Some promise \<Rightarrow>
          (if \<not> isConnectedRef s then Finished s
           else Awaiting (promise, createPcmBlob inputData) s))"

text \<open>
  The continuation given to \<open>then\<close>, and the handler given to \<open>catch\<close>. In
  \<open>SessionResolved session throws\<close>, \<open>throws\<close> says whether
  \<open>sendRealtimeInput\<close> throws; the call is recorded either way.
\<close>

definition send_audio_then :: "awaited_session \<Rightarrow> Media \<Rightarrow> LiveView \<Rightarrow> LiveView" where
  "send_audio_then r pcmBlob s =
     (case r of
        SessionResolved session throws \<Rightarrow>
          (if \<not> isConnectedRef s then s
           else if throws
           then emit [SendRealtimeInput session pcmBlob,
                      ConsoleError (js ''Error sending audio input:'')] s
           else emit [SendRealtimeInput session pcmBlob] s)
      | SessionRejected \<Rightarrow> emit [ConsoleError (js ''Session input error:'')] s)"

subsection \<open>Outbound video\<close>

text \<open>
  The interval callback: \<open>has2d\<close> says whether the canvas gave a 2d context,
  \<open>readyState\<close> is the video element's. Past the guard the frame is drawn and
  \<open>toBlob\<close> is asked for a JPEG.
\<close>

definition video_tick :: "bool \<Rightarrow> nat \<Rightarrow> LiveView \<Rightarrow> (unit, LiveView) segment" where
  "video_tick has2d readyState s =
     (if \<not> isConnectedRef s \<or> \<not> has2d \<or> sessionPromiseRef s = None \<or> readyState \<noteq> 4
      then Finished s else Awaiting () s)"

text \<open>The callback of \<open>toBlob\<close>: \<open>blob\<close> is \<open>None\<close> for a null blob.\<close>

definition toBlob_callback :: "handle option \<Rightarrow> LiveView \<Rightarrow> (handle, LiveView) segment" where
  "toBlob_callback blob s =
     (case blob of
        Some b \<Rightarrow> (if isConnectedRef s then Awaiting b s else Finished s)
      | None \<Rightarrow> Finished s)"

text \<open>
  After \<open>await blobToBase64(blob)\<close>: the optional chain on
  \<open>sessionPromiseRef.current\<close> does nothing when the ref is null.
\<close>

definition video_encoded :: "js_string \<Rightarrow> LiveView \<Rightarrow> (handle \<times> Media, LiveView) segment" where
  "video_encoded base64Data s =
     (case sessionPromiseRef s of
        Some promise \<Rightarrow> Awaiting (promise, Media (js ''image/jpeg'') base64Data) s
      | None \<Rightarrow> Finished s)"

definition send_video_then :: "awaited_session \<Rightarrow> Media \<Rightarrow> LiveView \<Rightarrow> LiveView" where
  "send_video_then r media s =
     (case r of
        SessionResolved session throws \<Rightarrow>
          (if \<not> isConnectedRef s then s
           else if throws
           then emit [SendRealtimeInput session media,
                      ConsoleError (js ''Error sending video input:'')] s
           else emit [SendRealtimeInput session media] s)
      | SessionRejected \<Rightarrow> emit [ConsoleError (js ''Session video error:'')] s)"

subsection \<open>Inbound messages\<close>

text \<open>The fields of \<open>LiveServerMessage\<close> that \<open>onmessage\<close> reads; each may be absent.\<close>

datatype Blob = Blob (mimeType: "js_string option") (data: "js_string option")
datatype Part = Part (inlineData: "Blob option")
datatype Content = Content (parts: "Part list option")
datatype LiveServerContent =
  LiveServerContent (modelTurn: "Content option") (interrupted: "bool option")
datatype LiveServerMessage = LiveServerMessage (serverContent: "LiveServerContent option")

text \<open>\<open>parts?.[0]\<close>: index 0 of an empty array is undefined.\<close>

definition first_part :: "Part list \<Rightarrow> Part option" where
  "first_part ps = (case ps of [] \<Rightarrow> None | p # _ \<Rightarrow> Some p)"

text \<open>\<open>message.serverContent?.modelTurn?.parts?.[0]?.inlineData?.data\<close>\<close>

definition base64Audio :: "LiveServerMessage \<Rightarrow> js_string option" where
  "base64Audio message =
     Option.bind
       (Option.bind
          (Option.bind
             (Option.bind (Option.bind (serverContent message) modelTurn) parts)
             first_part)
          inlineData)
       data"

text \<open>\<open>message.serverContent?.interrupted\<close> as a condition.\<close>

definition is_interrupted :: "LiveServerMessage \<Rightarrow> bool" where
  "is_interrupted message =
     (case serverContent message of
        Some sc \<Rightarrow> interrupted sc = Some True
      | None \<Rightarrow> False)"

text \<open>\<open>Set.prototype.add\<close> and \<open>delete\<close> on the insertion-ordered set.\<close>

definition set_add :: "handle \<Rightarrow> handle list \<Rightarrow> handle list" where
  "set_add x xs = (if x \<in> set xs then xs else xs @ [x])"

definition set_delete :: "handle \<Rightarrow> handle list \<Rightarrow> handle list" where
  "set_delete x xs = removeAll x xs"

text \<open>
  The second half of \<open>onmessage\<close>. An exception of \<open>node.stop()\<close> is caught and
  ignored, so every node of the set gets the call. \<open>now\<close> is the
  \<open>currentTime\<close> of the output context.
\<close>

definition handle_interruption :: "real \<Rightarrow> LiveServerMessage \<Rightarrow> LiveView \<Rightarrow> LiveView" where
  "handle_interruption now message s =
     (if is_interrupted message
      then
        (let s1 = (emit (map SourceStop (sourceNodesRef s)) s)\<lparr>sourceNodesRef := []\<rparr>
         in (case audioContextRef s1 of
               Some c \<Rightarrow> s1\<lparr>nextStartTimeRef := now\<rparr>
             | None \<Rightarrow> s1))
      else s)"

datatype AudioBuffer = AudioBuffer (duration: real)

text \<open>
  What the continuation of \<open>onmessage\<close> keeps across
  \<open>await decodeAudioData(decode(base64Audio), ctx, 24000, 1)\<close>: the context it read
  from the ref and the message.
\<close>

datatype pending_chunk = PendingChunk handle LiveServerMessage

text \<open>
  The first segment of \<open>onmessage\<close>. \<open>decode\<close> and \<open>decodeAudioData\<close> are
  imported from a module that is not among the sources: \<open>decode\<close> is a parameter
  (\<open>None\<close> when it throws, which the \<open>catch\<close> handles at once), and the outcome of
  the awaited \<open>decodeAudioData\<close> is an argument of the continuation. A string is a
  true condition when it is not empty.
\<close>

definition onmessage_begin ::
  "(js_string \<Rightarrow> nat list option) \<Rightarrow> real \<Rightarrow> LiveServerMessage \<Rightarrow> LiveView
     \<Rightarrow> (pending_chunk, LiveView) segment" where
  "onmessage_begin decode now message s =
     (case base64Audio message of
        None \<Rightarrow> Finished (handle_interruption now message s)
      | Some b64 \<Rightarrow>
          (if b64 = [] then Finished (handle_interruption now message s)
           else
             (case audioContextRef s of
                None \<Rightarrow> Finished (handle_interruption now message s)
              | Some ctx \<Rightarrow>
                  (let s1 = s\<lparr>nextStartTimeRef := max (nextStartTimeRef s) now\<rparr>
                   in (case decode b64 of
                         Some bytes \<Rightarrow> Awaiting (PendingChunk ctx message) s1
                       | None \<Rightarrow>
                           Finished
                             (handle_interruption now message
                                (emit [ConsoleError (js ''Error decoding audio:'')] s1)))))))"

text \<open>
  The continuation: \<open>decoded\<close> is the awaited buffer (\<open>None\<close> when the promise
  rejects), \<open>node\<close> the source that \<open>ctx.createBufferSource()\<close> returns.
\<close>

definition onmessage_resume ::
  "AudioBuffer option \<Rightarrow> handle \<Rightarrow> real \<Rightarrow> pending_chunk \<Rightarrow> LiveView \<Rightarrow> LiveView" where
  "onmessage_resume decoded node now p s =
     (case p of
        PendingChunk ctx message \<Rightarrow>
          handle_interruption now message
            (case decoded of
               Some audioBuffer \<Rightarrow>
                 (emit [SourceStart node (nextStartTimeRef s)] s)
                   \<lparr>nextStartTimeRef := nextStartTimeRef s + duration audioBuffer,
                    sourceNodesRef := set_add node (sourceNodesRef s)\<rparr>
             | None \<Rightarrow> emit [ConsoleError (js ''Error decoding audio:'')] s))"

text \<open>The listener of a source's \<open>ended\<close> event.\<close>

definition on_ended :: "handle \<Rightarrow> LiveView \<Rightarrow> LiveView" where
  "on_ended node s = s\<lparr>sourceNodesRef := set_delete node (sourceNodesRef s)\<rparr>"

text \<open>
  One inbound message handled from arrival to the end of \<open>onmessage\<close>, with nothing
  interleaving at the await: the clock reads \<open>clock\<close> on arrival and \<open>clock_after\<close>
  when decoding has finished.
\<close>

record arrival =
  message :: LiveServerMessage
  clock :: real
  decoded :: "AudioBuffer option"
  node :: handle
  clock_after :: real

definition onmessage :: "(js_string \<Rightarrow> nat list option) \<Rightarrow> arrival \<Rightarrow> LiveView \<Rightarrow> LiveView" where
  "onmessage decode a s =
     (case onmessage_begin decode (clock a) (message a) s of
        Finished s1 \<Rightarrow> s1
      | Awaiting p s1 \<Rightarrow> onmessage_resume (decoded a) (node a) (clock_after a) p s1)"

text \<open>Messages handled one after the other.\<close>

fun receive_all :: "(js_string \<Rightarrow> nat list option) \<Rightarrow> arrival list \<Rightarrow> LiveView \<Rightarrow> LiveView" where
  "receive_all decode [] s = s"
| "receive_all decode (a # as) s = receive_all decode as (onmessage decode a s)"

text \<open>What to look for in the recorded calls.\<close>

fun start_times :: "effect list \<Rightarrow> real list" where
  "start_times [] = []"
| "start_times (SourceStart n t # es) = t # start_times es"
| "start_times (e # es) = start_times es"

fun sends :: "effect list \<Rightarrow> (handle \<times> Media) list" where
  "sends [] = []"
| "sends (SendRealtimeInput session m # es) = (session, m) # sends es"
| "sends (e # es) = sends es"


fun error_logs :: "effect list \<Rightarrow> js_string list" where
  "error_logs [] = []"
| "error_logs (ConsoleError m # es) = m # error_logs es"
| "error_logs (e # es) = error_logs es"

section \<open>The text chat component (DeepChat)\<close>

datatype Role = User | Model

text \<open>
  The \<open>Message\<close> interface. \<open>id\<close> and \<open>text\<close> carry a prime, the plain names
  being taken. A \<open>Date\<close> is its number of milliseconds.
\<close>

record Message =
  id' :: js_string
  role :: Role
  text' :: js_string
  timestamp :: nat
  isThinking :: "bool option"

record DeepChat =
  messages :: "Message list"
  input :: js_string
  isLoading :: bool

text \<open>One element of the request's \<open>contents\<close>: a role and a single text part.\<close>

datatype Turn = Turn Role js_string

record GenerateContentRequest =
  model :: js_string
  contents :: "Turn list"
  thinkingBudget :: nat

text \<open>
  The code units that \<open>String.prototype.trim\<close> removes: the white space and line
  terminator characters of ECMAScript.
\<close>

definition is_js_whitespace :: "nat \<Rightarrow> bool" where
  "is_js_whitespace c =
     (c \<in> set [9, 10, 11, 12, 13, 32, 160, 5760, 8232, 8233, 8239, 8287, 12288, 65279]
      \<or> (8192 \<le> c \<and> c \<le> 8202))"

definition trim :: "js_string \<Rightarrow> js_string" where
  "trim s = rev (dropWhile is_js_whitespace (rev (dropWhile is_js_whitespace s)))"

text \<open>\<open>Number.prototype.toString\<close> on a non-negative integer: decimal digits.\<close>

fun toString :: "nat \<Rightarrow> js_string" where
  "toString n = (if n < 10 then [48 + n] else toString (n div 10) @ [48 + n mod 10])"

declare toString.simps [simp del]

text \<open>\<open>messages.slice(-5)\<close>: the last five elements, or all when there are fewer.\<close>

definition slice_last :: "nat \<Rightarrow> 'a list \<Rightarrow> 'a list" where
  "slice_last n xs = drop (length xs - n) xs"

definition system_context :: Turn where
  "system_context =
     Turn User (js ''System Context: You are Maya, a virtual girlfriend. Provide thoughtful, emotionally intelligent advice.'')"

text \<open>
  The first segment of \<open>handleSend\<close>, up to the awaited \<open>generateContent\<close>:
  \<open>now\<close> is \<open>Date.now()\<close>, \<open>date\<close> is \<open>new Date()\<close>. The request is built
  from \<open>messages\<close> and \<open>input\<close> as the render that created the handler saw them,
  that is, before the three state setters take effect. A segment that finishes issues no
  request; a segment that suspends has issued the one it carries.
\<close>

definition handleSend_begin ::
  "js_string \<Rightarrow> nat \<Rightarrow> nat \<Rightarrow> DeepChat \<Rightarrow> (GenerateContentRequest, DeepChat) segment" where
  "handleSend_begin apiKey now date s =
     (if trim (input s) = [] \<or> apiKey = [] then Finished s
      else
        (let userMsg = \<lparr>id' = toString now, role = User, text' = input s,
                        timestamp = date, isThinking = None\<rparr>;
             s1 = s\<lparr>messages := messages s @ [userMsg], input := [], isLoading := True\<rparr>;
             request =
               \<lparr>model = js ''gemini-3-pro-preview'',
                contents =
                  system_context
                  # map (\<lambda>m. Turn (role m) (text' m)) (slice_last 5 (messages s))
                  @ [Turn User (input s)],
                thinkingBudget = 1024\<rparr>
         in Awaiting request s1))"

text \<open>
  What the awaited request gives: a response whose \<open>text\<close> may be undefined, or an
  exception.
\<close>

datatype response = Response "js_string option" | RequestFailed

definition fallback_text :: js_string where
  "fallback_text = js ''I'm thinking deeply about that, but I couldn't find the right words.''"

definition trouble_text :: js_string where
  "trouble_text = js ''I'm having trouble connecting to my thoughts right now. Try again?''"

text \<open>\<open>response.text || fallback\<close>: undefined and the empty string give the fallback.\<close>

definition rendered_text :: "js_string option \<Rightarrow> js_string" where
  "rendered_text t = (case t of Some x \<Rightarrow> (if x = [] then fallback_text else x) | None \<Rightarrow> fallback_text)"

text \<open>The continuation of \<open>handleSend\<close>, with its \<open>catch\<close> and \<open>finally\<close>.\<close>

definition handleSend_resume :: "response \<Rightarrow> nat \<Rightarrow> nat \<Rightarrow> DeepChat \<Rightarrow> DeepChat" where
  "handleSend_resume r now date s =
     (let msg =
        (case r of
           Response t \<Rightarrow>
             \<lparr>id' = toString (now + 1), role = Model, text' = rendered_text t,
              timestamp = date, isThinking = Some True\<rparr>
         | RequestFailed \<Rightarrow>
             \<lparr>id' = toString now, role = Model, text' = trouble_text,
              timestamp = date, isThinking = None\<rparr>)
      in s\<lparr>messages := messages s @ [msg], isLoading := False\<rparr>)"

text \<open>The chat when the component mounts, at date \<open>date\<close>.\<close>

definition welcome_message :: "nat \<Rightarrow> Message" where
  "welcome_message date =
     \<lparr>id' = js ''welcome'', role = Model,
      text' = js ''Hi love! I'm here if you need deep advice or just want to chat via text. What's on your mind?'',
      timestamp = date, isThinking = None\<rparr>"

definition chat_initial :: "nat \<Rightarrow> DeepChat" where
  "chat_initial date = \<lparr>messages = [welcome_message date], input = [], isLoading = False\<rparr>"

section \<open>The PCM encoder\<close>

text \<open>
  Modelled from the spec: \<open>createPcmBlob\<close> of \<open>utils/audio-utils\<close>, which the live
  call component imports and which is not among the sources. The specification says: each
  sample is clamped to [-1, 1] and scaled, negative values by 0x8000 and non-negative ones
  by 0x7FFF, to a 16-bit signed integer, and the output is packed little-endian. Storing a
  number in a 16-bit integer array drops its fraction and keeps the low 16 bits, which is
  the conversion taken here. A sample is a real number: every finite float is one, and
  both products are exact in double precision for a single precision sample.
\<close>

definition clamp_sample :: "real \<Rightarrow> real" where
  "clamp_sample x = max (-1) (min 1 x)"

definition truncate :: "real \<Rightarrow> int" where
  "truncate x = (if x < 0 then \<lceil>x\<rceil> else \<lfloor>x\<rfloor>)"

definition to_int16 :: "real \<Rightarrow> 16 word" where
  "to_int16 x = word_of_int (truncate x)"

text \<open>
  Modelled from the spec: the conversion of one sample by the absent \<open>createPcmBlob\<close>.
\<close>

definition encode_sample :: "real \<Rightarrow> 16 word" where
  "encode_sample x =
     (let s = clamp_sample x
      in if s < 0 then to_int16 (s * 32768) else to_int16 (s * 32767))"

text \<open>
  Modelled from the spec: the little-endian packing done by the absent
  \<open>createPcmBlob\<close>, low byte first, and the encoder applied to a whole buffer.
\<close>

definition little_endian :: "16 word \<Rightarrow> 8 word list" where
  "little_endian w = [ucast w, ucast (drop_bit 8 w)]"

definition pcm_int16 :: "real list \<Rightarrow> 16 word list" where
  "pcm_int16 buffer = map encode_sample buffer"

definition pcm_bytes :: "real list \<Rightarrow> 8 word list" where
  "pcm_bytes buffer = concat (map little_endian (pcm_int16 buffer))"

text \<open>
  Modelled from the spec: the reference conversion from float to 16-bit integer that the
  encoder is compared with. The specification names it without defining it; it is taken to
  be the conversion with one scale, 32768, for both signs, the fraction dropped, and the
  result saturated to the 16-bit range.
\<close>

definition reference_int16 :: "real \<Rightarrow> int" where
  "reference_int16 x = max (-32768) (min 32767 (truncate (clamp_sample x * 32768)))"

section \<open>A call in progress\<close>

text \<open>
  The state of a call that was started from the initial state with camera and microphone
  granted (stream 3), both audio contexts created (input 4, output 5, whose clock reads 0),
  the connect promise 6, and the session opened (frame timer 1).
\<close>

definition live_call :: LiveView where
  "live_call =
     onopen True 1 (connectToLiveApi (js ''key'') (Some 3) True (SetupOk 4 5 0 6) initial)"

text \<open>
  An inbound message whose model turn has the given parts, and two such messages: one
  that carries a chunk of audio in its first part, one that only signals an interruption.
\<close>

definition with_parts :: "Part list \<Rightarrow> bool option \<Rightarrow> LiveServerMessage" where
  "with_parts ps i = LiveServerMessage (Some (LiveServerContent (Some (Content (Some ps))) i))"

definition audio_part :: Part where
  "audio_part = Part (Some (Blob (Some (js ''audio/pcm;rate=24000'')) (Some (js ''AAAA''))))"

definition audio_message :: LiveServerMessage where
  "audio_message = with_parts [audio_part] None"


section \<open>Playback: what handling a message amounts to\<close>

text \<open>
  An arrival plays when its message carries audio in its first part, both decoding steps
  succeed and the message does not signal an interruption. It fails to decode when it
  carries audio and one of the two decoding steps fails.
\<close>

definition plays :: "(js_string \<Rightarrow> nat list option) \<Rightarrow> arrival \<Rightarrow> bool" where
  "plays decode a =
     ((case base64Audio (message a) of
         Some b64 \<Rightarrow> b64 \<noteq> [] \<and> decode b64 \<noteq> None
       | None \<Rightarrow> False)
      \<and> decoded a \<noteq> None \<and> \<not> is_interrupted (message a))"

definition fails_to_decode :: "(js_string \<Rightarrow> nat list option) \<Rightarrow> arrival \<Rightarrow> bool" where
  "fails_to_decode decode a =
     (case base64Audio (message a) of
        Some b64 \<Rightarrow> b64 \<noteq> [] \<and> (decode b64 = None \<or> decoded a = None)
      | None \<Rightarrow> False)"

definition chunk_duration :: "arrival \<Rightarrow> real" where
  "chunk_duration a = (case decoded a of Some audioBuffer \<Rightarrow> duration audioBuffer | None \<Rightarrow> 0)"

text \<open>
  The schedule in the specification's words: a chunk starts at the larger of the cursor
  and the playback clock, and the cursor then advances by the chunk's duration.
\<close>

fun spec_schedule :: "real \<Rightarrow> arrival list \<Rightarrow> real list" where
  "spec_schedule cursor [] = []"
| "spec_schedule cursor (a # as) =
     max cursor (clock a) # spec_schedule (max cursor (clock a) + chunk_duration a) as"

fun spec_cursor :: "real \<Rightarrow> arrival list \<Rightarrow> real" where
  "spec_cursor cursor [] = cursor"
| "spec_cursor cursor (a # as) = spec_cursor (max cursor (clock a) + chunk_duration a) as"

text \<open>
  A decoder that accepts everything, and the arrival at clock \<open>t\<close> of a chunk that
  decodes to \<open>d\<close> seconds and gets the source node \<open>n\<close>.
\<close>

definition decode_any :: "js_string \<Rightarrow> nat list option" where
  "decode_any b64 = Some []"

definition chunk :: "real \<Rightarrow> real \<Rightarrow> handle \<Rightarrow> arrival" where
  "chunk t d n =
     \<lparr>message = audio_message, clock = t, decoded = Some (AudioBuffer d), node = n,
      clock_after = t\<rparr>"

text \<open>
  The arrival at clock \<open>t\<close> of a chunk whose audio cannot be decoded, and of a
  message that only signals an interruption.
\<close>

definition undecodable :: "real \<Rightarrow> arrival" where
  "undecodable t =
     \<lparr>message = audio_message, clock = t, decoded = None, node = 0, clock_after = t\<rparr>"



section \<open>Messages whose decoding overlaps\<close>

text \<open>
  \<open>onmessage\<close> suspends while a chunk is decoded, so a further message can arrive,
  and a later chunk can finish decoding, before an earlier one has. An event is either the
  arrival of a message at a clock reading, which runs the first segment of
  \<open>onmessage\<close>, or the settling of the decoding that is at a given position among
  those in flight, which runs the continuation with the outcome, the new source node and
  the clock reading. The state carries the continuations in flight, oldest first.
\<close>

datatype event = Arrives real LiveServerMessage | Settles nat "AudioBuffer option" handle real

fun pending_message :: "pending_chunk \<Rightarrow> LiveServerMessage" where
  "pending_message (PendingChunk ctx m) = m"

fun step ::
  "(js_string \<Rightarrow> nat list option) \<Rightarrow> event \<Rightarrow> pending_chunk list \<times> LiveView
     \<Rightarrow> pending_chunk list \<times> LiveView" where
  "step decode (Arrives t m) (ps, s) =
     (case onmessage_begin decode t m s of
        Finished s1 \<Rightarrow> (ps, s1)
      | Awaiting p s1 \<Rightarrow> (ps @ [p], s1))"
| "step decode (Settles i d n t) (ps, s) =
     (if i < length ps
      then (take i ps @ drop (Suc i) ps, onmessage_resume d n t (ps ! i) s)
      else (ps, s))"

fun run ::
  "(js_string \<Rightarrow> nat list option) \<Rightarrow> event list \<Rightarrow> pending_chunk list \<times> LiveView
     \<Rightarrow> pending_chunk list \<times> LiveView" where
  "run decode [] st = st"
| "run decode (e # es) st = run decode es (step decode e st)"

text \<open>
  Events and continuations in flight that signal no interruption, the buffers having
  durations that are not negative.
\<close>

fun quiet_event :: "event \<Rightarrow> bool" where
  "quiet_event (Arrives t m) = (\<not> is_interrupted m)"
| "quiet_event (Settles i d n t) =
     (case d of Some audioBuffer \<Rightarrow> 0 \<le> duration audioBuffer | None \<Rightarrow> True)"

definition quiet_pending :: "pending_chunk list \<Rightarrow> bool" where
  "quiet_pending ps = list_all (\<lambda>p. \<not> is_interrupted (pending_message p)) ps"

text \<open>The start times that a run of events passes to \<open>source.start\<close>, in call order.\<close>

definition new_starts ::
  "(js_string \<Rightarrow> nat list option) \<Rightarrow> event list \<Rightarrow> pending_chunk list \<times> LiveView
     \<Rightarrow> real list" where
  "new_starts decode es st =
     drop (length (start_times (effects (snd st))))
       (start_times (effects (snd (run decode es st))))"

section \<open>The flag and the connection state\<close>

text \<open>The flag mirrors the state when it is set only in state \<open>CONNECTED\<close>.\<close>

definition mirrors :: "LiveView \<Rightarrow> bool" where
  "mirrors s = (isConnectedRef s \<longrightarrow> connectionState s = CONNECTED)"

text \<open>
  A call that is still connecting (stream 3, contexts 4 and 5, connect promise 6), and the
  same call hung up at that point: \<open>disconnect\<close> waits for the connect promise, the
  session opens meanwhile (frame timer 1), and \<open>disconnect\<close> then goes on with the
  session 9.
\<close>

definition connecting :: LiveView where
  "connecting = connectToLiveApi (js ''key'') (Some 3) True (SetupOk 4 5 0 6) initial"

definition hung_up_while_connecting :: LiveView where
  "hung_up_while_connecting =
     (case disconnect_begin connecting of
        Awaiting promise s \<Rightarrow> disconnect_resume (SessionResolved 9 False) (onopen True 1 s)
      | Finished s \<Rightarrow> s)"


section \<open>Basic facts\<close>

lemma emit_fields:
  "connectionState (emit es s) = connectionState s"
  "error (emit es s) = error s"
  "streamRef (emit es s) = streamRef s"
  "audioContextRef (emit es s) = audioContextRef s"
  "inputAudioContextRef (emit es s) = inputAudioContextRef s"
  "nextStartTimeRef (emit es s) = nextStartTimeRef s"
  "sessionPromiseRef (emit es s) = sessionPromiseRef s"
  "videoIntervalRef (emit es s) = videoIntervalRef s"
  "sourceNodesRef (emit es s) = sourceNodesRef s"
  "isConnectedRef (emit es s) = isConnectedRef s"
  "effects (emit es s) = effects s @ es"
  by (simp_all add: emit_def)

lemma start_times_append: "start_times (xs @ ys) = start_times xs @ start_times ys"
  by (induction xs rule: start_times.induct) simp_all

lemma sends_append: "sends (xs @ ys) = sends xs @ sends ys"
  by (induction xs rule: sends.induct) simp_all


lemma error_logs_append: "error_logs (xs @ ys) = error_logs xs @ error_logs ys"
  by (induction xs rule: error_logs.induct) simp_all


lemma start_times_map_SourceStop: "start_times (map SourceStop ns) = []"
  by (induction ns) simp_all

lemma error_logs_map_SourceStop: "error_logs (map SourceStop ns) = []"
  by (induction ns) simp_all

lemma live_call_eq:
  "live_call =
     \<lparr>connectionState = CONNECTED, error = None, streamRef = Some 3,
      audioContextRef = Some 5, inputAudioContextRef = Some 4, nextStartTimeRef = 0,
      sessionPromiseRef = Some 6, videoIntervalRef = Some 1, sourceNodesRef = [],
      isConnectedRef = True, effects = [SetSrcObject 3]\<rparr>"
  by (simp add: live_call_def onopen_def connectToLiveApi_def startCamera_def initial_def
      emit_def js_def Let_def)

lemma base64Audio_audio_message: "base64Audio audio_message = Some (js ''AAAA'')"
  by (simp add: audio_message_def with_parts_def audio_part_def base64Audio_def first_part_def)

lemma js_AAAA: "js ''AAAA'' \<noteq> []"
  by (simp add: js_def)

lemma not_interrupted_audio_message: "\<not> is_interrupted audio_message"
  by (simp add: audio_message_def with_parts_def is_interrupted_def)



section \<open>Guards of the outbound paths\<close>

lemma send_audio_then_off:
  "\<not> isConnectedRef s \<Longrightarrow> sends (effects (send_audio_then r m s)) = sends (effects s)"
  by (cases r) (simp_all add: send_audio_then_def emit_fields sends_append)

lemma send_video_then_off:
  "\<not> isConnectedRef s \<Longrightarrow> sends (effects (send_video_then r m s)) = sends (effects s)"
  by (cases r) (simp_all add: send_video_then_def emit_fields sends_append)

lemma onaudioprocess_off:
  "\<not> isConnectedRef s \<Longrightarrow> onaudioprocess f d s = Finished s"
  by (cases "sessionPromiseRef s") (simp_all add: onaudioprocess_def)

lemma video_tick_off: "\<not> isConnectedRef s \<Longrightarrow> video_tick c r s = Finished s"
  by (simp add: video_tick_def)

lemma toBlob_callback_off: "\<not> isConnectedRef s \<Longrightarrow> toBlob_callback b s = Finished s"
  by (cases b) (simp_all add: toBlob_callback_def)

lemma flag_cleared:
  "\<not> isConnectedRef (onclose s)" "\<not> isConnectedRef (onerror s)"
  by (simp_all add: onclose_def onerror_def)

section \<open>Teardown\<close>


lemma stopCamera_stream: "streamRef (stopCamera s) = None"
  unfolding stopCamera_def Let_def
  by (cases "streamRef s"; cases "videoIntervalRef s"; simp add: emit_fields)



lemma stopCamera_frame:
  "audioContextRef (stopCamera s) = audioContextRef s"
  "inputAudioContextRef (stopCamera s) = inputAudioContextRef s"
  "sessionPromiseRef (stopCamera s) = sessionPromiseRef s"
  "isConnectedRef (stopCamera s) = isConnectedRef s"
  unfolding stopCamera_def Let_def
  by (cases "streamRef s"; cases "videoIntervalRef s"; simp add: emit_fields)+

lemma disconnect_rest_fields:
  "inputAudioContextRef (disconnect_rest s) = None"
  "audioContextRef (disconnect_rest s) = None"
  "streamRef (disconnect_rest s) = None"
  "connectionState (disconnect_rest s) = DISCONNECTED"
  "sessionPromiseRef (disconnect_rest s) = sessionPromiseRef s"
  "isConnectedRef (disconnect_rest s) = isConnectedRef s"
  unfolding disconnect_rest_def Let_def
  by (cases "inputAudioContextRef s"; cases "audioContextRef s";
      simp add: emit_fields stopCamera_frame stopCamera_stream)+

lemma disconnect_begin_flag:
  "(case disconnect_begin s of Finished t \<Rightarrow> \<not> isConnectedRef t | Awaiting p t \<Rightarrow> \<not> isConnectedRef t)"
  by (cases "sessionPromiseRef s") (simp_all add: disconnect_begin_def Let_def disconnect_rest_fields)




lemma disconnect_unfold:
  "disconnect r s =
     (case sessionPromiseRef s of
        Some p \<Rightarrow> disconnect_resume r (s\<lparr>isConnectedRef := False\<rparr>)
      | None \<Rightarrow> disconnect_rest (s\<lparr>isConnectedRef := False\<rparr>))"
  by (cases "sessionPromiseRef s") (simp_all add: disconnect_def disconnect_begin_def Let_def)

lemma disconnect_resume_fields:
  "inputAudioContextRef (disconnect_resume r s) = None"
  "audioContextRef (disconnect_resume r s) = None"
  "streamRef (disconnect_resume r s) = None"
  "connectionState (disconnect_resume r s) = DISCONNECTED"
  "sessionPromiseRef (disconnect_resume r s) = None"
  "isConnectedRef (disconnect_resume r s) = isConnectedRef s"
  unfolding disconnect_resume_def Let_def
  by (cases r; simp add: disconnect_rest_fields emit_fields)+



lemma disconnect_fields:
  "inputAudioContextRef (disconnect r s) = None"
  "audioContextRef (disconnect r s) = None"
  "streamRef (disconnect r s) = None"
  "connectionState (disconnect r s) = DISCONNECTED"
  "sessionPromiseRef (disconnect r s) = None"
  "isConnectedRef (disconnect r s) = False"
  unfolding disconnect_unfold
  by (cases "sessionPromiseRef s"; simp add: disconnect_rest_fields disconnect_resume_fields)+











lemma disconnect_live_call:
  "disconnect (SessionResolved 9 False) live_call =
     \<lparr>connectionState = DISCONNECTED, error = None, streamRef = None,
      audioContextRef = None, inputAudioContextRef = None, nextStartTimeRef = 0,
      sessionPromiseRef = None, videoIntervalRef = None, sourceNodesRef = [],
      isConnectedRef = False,
      effects = [SetSrcObject 3, SessionClose 9, AudioContextClose 4, AudioContextClose 5,
                 TracksStop 3, ClearInterval 1]\<rparr>"
  by (simp add: live_call_eq disconnect_def disconnect_begin_def disconnect_resume_def
      disconnect_rest_def stopCamera_def emit_def Let_def)

lemma connecting_eq:
  "connecting =
     \<lparr>connectionState = CONNECTING, error = None, streamRef = Some 3,
      audioContextRef = Some 5, inputAudioContextRef = Some 4, nextStartTimeRef = 0,
      sessionPromiseRef = Some 6, videoIntervalRef = None, sourceNodesRef = [],
      isConnectedRef = False, effects = [SetSrcObject 3]\<rparr>"
  by (simp add: connecting_def connectToLiveApi_def startCamera_def initial_def
      emit_def js_def Let_def)


section \<open>A call that cannot get the camera\<close>

text \<open>
  Claim C7. When the call button is pressed with an API key, no stream is held and
  \<open>getUserMedia\<close> rejects, \<open>connectToLiveApi\<close> reports
  "Camera/Mic permission denied or unavailable.", returns before it sets \<open>CONNECTING\<close>
  (the connection state is what it was, and neither \<open>CONNECTING\<close> nor
  \<open>CONNECTED\<close>), retains no media stream, and creates no audio context and no session,
  whatever the rest of the function would have done.
\<close>

theorem camera_failure_aborts:
  assumes "apiKey \<noteq> []" and "streamRef s = None" and "callButtonShown s"
  shows "error (connectToLiveApi apiKey None mounted setup s) =
           Some (js ''Camera/Mic permission denied or unavailable.'') \<and>
         connectionState (connectToLiveApi apiKey None mounted setup s) = connectionState s \<and>
         connectionState (connectToLiveApi apiKey None mounted setup s) \<noteq> CONNECTING \<and>
         connectionState (connectToLiveApi apiKey None mounted setup s) \<noteq> CONNECTED \<and>
         streamRef (connectToLiveApi apiKey None mounted setup s) = None \<and>
         sessionPromiseRef (connectToLiveApi apiKey None mounted setup s) = sessionPromiseRef s \<and>
         audioContextRef (connectToLiveApi apiKey None mounted setup s) = audioContextRef s \<and>
         inputAudioContextRef (connectToLiveApi apiKey None mounted setup s) =
           inputAudioContextRef s \<and>
         isConnectedRef (connectToLiveApi apiKey None mounted setup s) = isConnectedRef s"
proof -
  have run: "connectToLiveApi apiKey None mounted setup s =
      (emit [ConsoleError (js ''Error accessing media devices:'')] s)
        \<lparr>error := Some (js ''Camera/Mic permission denied or unavailable.'')\<rparr>"
    using assms(1,2) by (simp add: connectToLiveApi_def startCamera_def)
  from assms(3) have "connectionState s \<noteq> CONNECTING \<and> connectionState s \<noteq> CONNECTED"
    by (auto simp: callButtonShown_def)
  then show ?thesis
    using assms(2) by (simp add: run emit_fields)
qed

text \<open>Permission denied on the first call after mounting.\<close>

theorem camera_failure_aborts_witness:
  "js ''key'' \<noteq> [] \<and> streamRef initial = None \<and> callButtonShown initial \<and>
   error (connectToLiveApi (js ''key'') None True (SetupOk 4 5 0 6) initial) =
     Some (js ''Camera/Mic permission denied or unavailable.'') \<and>
   connectionState (connectToLiveApi (js ''key'') None True (SetupOk 4 5 0 6) initial) =
     DISCONNECTED \<and>
   streamRef (connectToLiveApi (js ''key'') None True (SetupOk 4 5 0 6) initial) = None"
proof -
  have h: "js ''key'' \<noteq> []" "streamRef initial = None" "callButtonShown initial"
    by (simp_all add: js_def initial_def callButtonShown_def)
  show ?thesis
    using h camera_failure_aborts [OF h, of True "SetupOk 4 5 0 6"]
    by (simp add: initial_def)
qed

section \<open>Handling an interruption\<close>

lemma handle_interruption_quiet: "\<not> is_interrupted m \<Longrightarrow> handle_interruption now m s = s"
  by (simp add: handle_interruption_def)

lemma handle_interruption_flush:
  assumes "is_interrupted m"
  shows "effects (handle_interruption now m s) = effects s @ map SourceStop (sourceNodesRef s)"
    and "sourceNodesRef (handle_interruption now m s) = []"
    and "nextStartTimeRef (handle_interruption now m s) =
           (if audioContextRef s = None then nextStartTimeRef s else now)"
    and "audioContextRef (handle_interruption now m s) = audioContextRef s"
  using assms unfolding handle_interruption_def Let_def
  by (cases "audioContextRef s"; simp add: emit_fields)+

lemma handle_interruption_context:
  "audioContextRef (handle_interruption now m s) = audioContextRef s"
  by (cases "is_interrupted m")
    (simp_all add: handle_interruption_quiet handle_interruption_flush)

lemma handle_interruption_starts:
  "start_times (effects (handle_interruption now m s)) = start_times (effects s)"
  by (cases "is_interrupted m")
    (simp_all add: handle_interruption_quiet handle_interruption_flush start_times_append
      start_times_map_SourceStop)

lemma handle_interruption_error_logs:
  "error_logs (effects (handle_interruption now m s)) = error_logs (effects s)"
  by (cases "is_interrupted m")
    (simp_all add: handle_interruption_quiet handle_interruption_flush error_logs_append
      error_logs_map_SourceStop)

section \<open>Handling a message\<close>

lemma onmessage_begin_no_audio:
  "base64Audio m = None \<or> base64Audio m = Some [] \<or> audioContextRef s = None \<Longrightarrow>
   onmessage_begin decode now m s = Finished (handle_interruption now m s)"
  by (cases "base64Audio m"; cases "audioContextRef s"; auto simp: onmessage_begin_def)

lemma onmessage_begin_audio:
  assumes "base64Audio m = Some b64" "b64 \<noteq> []" "audioContextRef s = Some ctx"
  shows "onmessage_begin decode now m s =
     (case decode b64 of
        Some bytes \<Rightarrow>
          Awaiting (PendingChunk ctx m) (s\<lparr>nextStartTimeRef := max (nextStartTimeRef s) now\<rparr>)
      | None \<Rightarrow>
          Finished (handle_interruption now m
            (emit [ConsoleError (js ''Error decoding audio:'')]
               (s\<lparr>nextStartTimeRef := max (nextStartTimeRef s) now\<rparr>))))"
  using assms by (simp add: onmessage_begin_def Let_def)

lemma onmessage_resume_starts:
  "start_times (effects (onmessage_resume (Some audioBuffer) n now p s)) =
     start_times (effects s) @ [nextStartTimeRef s]"
  by (cases p)
    (simp add: onmessage_resume_def handle_interruption_starts emit_fields start_times_append)

lemma onmessage_plays:
  assumes "audioContextRef s = Some ctx" and "plays decode a"
  shows "onmessage decode a s =
     (emit [SourceStart (node a) (max (nextStartTimeRef s) (clock a))] s)
       \<lparr>nextStartTimeRef := max (nextStartTimeRef s) (clock a) + chunk_duration a,
        sourceNodesRef := set_add (node a) (sourceNodesRef s)\<rparr>"
proof -
  from assms(2) obtain b64 bytes audioBuffer where
    a: "base64Audio (message a) = Some b64" "b64 \<noteq> []" "decode b64 = Some bytes"
      "decoded a = Some audioBuffer" "\<not> is_interrupted (message a)"
    by (auto simp: plays_def split: option.splits)
  show ?thesis
    using a assms(1)
    by (simp add: onmessage_def onmessage_begin_audio [OF a(1,2) assms(1)] onmessage_resume_def
        handle_interruption_quiet chunk_duration_def emit_def)
qed

lemma onmessage_plays_fields:
  assumes "audioContextRef s = Some ctx" and "plays decode a"
  shows "effects (onmessage decode a s) =
           effects s @ [SourceStart (node a) (max (nextStartTimeRef s) (clock a))]"
    and "nextStartTimeRef (onmessage decode a s) =
           max (nextStartTimeRef s) (clock a) + chunk_duration a"
    and "sourceNodesRef (onmessage decode a s) = set_add (node a) (sourceNodesRef s)"
    and "audioContextRef (onmessage decode a s) = Some ctx"
  using assms(1) by (simp_all add: onmessage_plays [OF assms] emit_fields)

lemma onmessage_fails:
  assumes "audioContextRef s = Some ctx" and "fails_to_decode decode a"
  shows "onmessage decode a s =
     handle_interruption
       (case base64Audio (message a) of
          Some b64 \<Rightarrow> (if decode b64 = None then clock a else clock_after a)
        | None \<Rightarrow> clock a)
       (message a)
       (emit [ConsoleError (js ''Error decoding audio:'')]
          (s\<lparr>nextStartTimeRef := max (nextStartTimeRef s) (clock a)\<rparr>))"
proof -
  from assms(2) obtain b64 where
    a: "base64Audio (message a) = Some b64" "b64 \<noteq> []" "decode b64 = None \<or> decoded a = None"
    by (auto simp: fails_to_decode_def split: option.splits)
  show ?thesis
  proof (cases "decode b64")
    case None
    then show ?thesis
      using a by (simp add: onmessage_def onmessage_begin_audio [OF a(1,2) assms(1)])
  next
    case (Some bytes)
    with a(3) have "decoded a = None" by simp
    then show ?thesis
      using a Some
      by (simp add: onmessage_def onmessage_begin_audio [OF a(1,2) assms(1)]
          onmessage_resume_def)
  qed
qed

section \<open>Schedules\<close>

lemma length_spec_schedule: "length (spec_schedule c as) = length as"
  by (induction as arbitrary: c) simp_all

lemma max_plus_le: "(0::real) \<le> d \<Longrightarrow> max c k + d \<le> t \<Longrightarrow> max c k \<le> t \<and> c \<le> t"
  by (simp add: max_def split: if_splits)

lemma spec_schedule_lower:
  "\<forall>a\<in>set as. 0 \<le> chunk_duration a \<Longrightarrow> t \<in> set (spec_schedule c as) \<Longrightarrow> c \<le> t"
proof (induction as arbitrary: c)
  case Nil
  then show ?case by simp
next
  case (Cons a as)
  from Cons.prems(2) consider "t = max c (clock a)"
    | "t \<in> set (spec_schedule (max c (clock a) + chunk_duration a) as)"
    by auto
  then show ?case
  proof cases
    case 1
    then show ?thesis by simp
  next
    case 2
    have rest: "\<forall>a\<in>set as. 0 \<le> chunk_duration a" using Cons.prems(1) by simp
    have "max c (clock a) + chunk_duration a \<le> t"
      by (rule Cons.IH [OF rest 2])
    moreover have "0 \<le> chunk_duration a" using Cons.prems(1) by simp
    ultimately show ?thesis using max_plus_le by blast
  qed
qed

lemma sorted_spec_schedule:
  "\<forall>a\<in>set as. 0 \<le> chunk_duration a \<Longrightarrow> sorted (spec_schedule c as)"
proof (induction as arbitrary: c)
  case Nil
  then show ?case by simp
next
  case (Cons a as)
  have d: "0 \<le> chunk_duration a" using Cons.prems by simp
  have rest: "\<forall>a\<in>set as. 0 \<le> chunk_duration a" using Cons.prems by simp
  have "max c (clock a) \<le> t"
    if "t \<in> set (spec_schedule (max c (clock a) + chunk_duration a) as)" for t
  proof -
    have "max c (clock a) + chunk_duration a \<le> t"
      by (rule spec_schedule_lower [OF rest that])
    with d show ?thesis using max_plus_le by blast
  qed
  moreover have "sorted (spec_schedule (max c (clock a) + chunk_duration a) as)"
    by (rule Cons.IH [OF rest])
  ultimately show ?case
    unfolding spec_schedule.simps sorted_simps by blast
qed

lemma spec_schedule_first:
  "as \<noteq> [] \<Longrightarrow> spec_schedule c as ! 0 = max c (clock (as ! 0))"
  by (cases as) simp_all

lemma spec_schedule_step:
  "Suc i < length as \<Longrightarrow>
   spec_schedule c as ! Suc i =
     max (spec_schedule c as ! i + chunk_duration (as ! i)) (clock (as ! Suc i))"
proof (induction as arbitrary: c i)
  case Nil
  then show ?case by simp
next
  case (Cons a as)
  show ?case
  proof (cases i)
    case 0
    with Cons.prems obtain b bs where "as = b # bs" by (cases as) auto
    with 0 show ?thesis by simp
  next
    case (Suc j)
    with Cons.prems have "Suc j < length as" by simp
    from Cons.IH [OF this, of "max c (clock a) + chunk_duration a"] Suc show ?thesis
      by (simp only: spec_schedule.simps nth_Cons_Suc)
  qed
qed

lemma receive_all_plays:
  assumes "audioContextRef s = Some ctx" and "\<forall>a\<in>set as. plays decode a"
  shows "start_times (effects (receive_all decode as s)) =
           start_times (effects s) @ spec_schedule (nextStartTimeRef s) as \<and>
         nextStartTimeRef (receive_all decode as s) = spec_cursor (nextStartTimeRef s) as \<and>
         audioContextRef (receive_all decode as s) = Some ctx"
  using assms
proof (induction as arbitrary: s)
  case Nil
  then show ?case by simp
next
  case (Cons a as)
  have p: "plays decode a" using Cons.prems(2) by simp
  note f = onmessage_plays_fields [OF Cons.prems(1) p]
  have "\<forall>a\<in>set as. plays decode a" using Cons.prems(2) by simp
  from Cons.IH [OF f(4) this] show ?case
    by (simp add: f start_times_append)
qed

section \<open>Concrete arrivals\<close>

lemma plays_chunk: "plays decode_any (chunk t d n)"
  by (simp add: plays_def chunk_def base64Audio_audio_message js_AAAA decode_any_def
      not_interrupted_audio_message)

lemma chunk_fields:
  "clock (chunk t d n) = t" "node (chunk t d n) = n" "chunk_duration (chunk t d n) = d"
  by (simp_all add: chunk_def chunk_duration_def)

lemma fails_undecodable: "fails_to_decode decode_any (undecodable t)"
  by (simp add: fails_to_decode_def undecodable_def base64Audio_audio_message js_AAAA)

lemma live_call_fields:
  "audioContextRef live_call = Some 5" "nextStartTimeRef live_call = 0"
  "effects live_call = [SetSrcObject 3]" "sourceNodesRef live_call = []"
  "isConnectedRef live_call" "connectionState live_call = CONNECTED"
  by (simp_all add: live_call_eq)

section \<open>Sends are guarded by the flag, scheduling by the output context\<close>

lemma outbound_segments_send_nothing:
  "(case onaudioprocess createPcmBlob inputData s of
      Finished t \<Rightarrow> t = s
    | Awaiting k t \<Rightarrow> t = s \<and> isConnectedRef s)"
  "(case video_tick has2d readyState s of
      Finished t \<Rightarrow> t = s
    | Awaiting k t \<Rightarrow> t = s \<and> isConnectedRef s)"
  "(case toBlob_callback blob s of
      Finished t \<Rightarrow> t = s
    | Awaiting k t \<Rightarrow> t = s \<and> isConnectedRef s)"
  "(case video_encoded base64Data s of
      Finished t \<Rightarrow> t = s
    | Awaiting k t \<Rightarrow> t = s)"
proof -
  show "(case onaudioprocess createPcmBlob inputData s of
      Finished t \<Rightarrow> t = s
    | Awaiting k t \<Rightarrow> t = s \<and> isConnectedRef s)"
    by (cases "sessionPromiseRef s") (simp_all add: onaudioprocess_def)
  show "(case video_tick has2d readyState s of
      Finished t \<Rightarrow> t = s
    | Awaiting k t \<Rightarrow> t = s \<and> isConnectedRef s)"
    by (simp add: video_tick_def)
  show "(case toBlob_callback blob s of
      Finished t \<Rightarrow> t = s
    | Awaiting k t \<Rightarrow> t = s \<and> isConnectedRef s)"
    by (cases blob) (simp_all add: toBlob_callback_def)
  show "(case video_encoded base64Data s of
      Finished t \<Rightarrow> t = s
    | Awaiting k t \<Rightarrow> t = s)"
    by (cases "sessionPromiseRef s") (simp_all add: video_encoded_def)
qed

lemma mirrors_callbacks:
  "mirrors (onopen mounted timer s)" "mirrors (onclose s)" "mirrors (onerror s)"
  "mirrors (disconnect r s)"
proof -
  show "mirrors (onopen mounted timer s)"
    by (cases mounted) (simp_all add: mirrors_def onopen_def Let_def)
  show "mirrors (onclose s)" "mirrors (onerror s)"
    by (simp_all add: mirrors_def flag_cleared)
  show "mirrors (disconnect r s)"
    by (simp add: mirrors_def disconnect_fields)
qed

lemma mirrors_off:
  "mirrors s \<Longrightarrow> connectionState s \<noteq> CONNECTED \<Longrightarrow> \<not> isConnectedRef s"
  by (auto simp: mirrors_def)

text \<open>
  Claim C1, as amended. Outbound: \<open>onaudioprocess\<close>, the interval callback and the
  callback of \<open>toBlob\<close> go on only when the flag \<open>isConnectedRef\<close> is set; the
  stage after \<open>blobToBase64\<close> tests only the session promise; none of the four sends
  anything or changes the component. The continuation that calls
  \<open>sendRealtimeInput\<close> tests the flag at the moment it runs: with the flag cleared
  nothing is sent, with the flag set and the session resolved the payload is sent. The
  flag is cleared by \<open>onclose\<close>, by \<open>onerror\<close> and by the first statement of
  \<open>disconnect\<close>. The flag mirrors the state after \<open>onopen\<close>, \<open>onclose\<close>,
  \<open>onerror\<close> and a \<open>disconnect\<close> that nothing interleaves with, and while it
  mirrors the state nothing is sent in a state other than \<open>CONNECTED\<close>. Inbound:
  \<open>onmessage\<close> tests neither the flag nor the connection state. A chunk goes to
  decoding only when an output audio context is held on arrival, and a decoded chunk is
  then scheduled at the cursor whatever the state is.
\<close>

theorem sends_need_flag_scheduling_needs_context:
  "(case onaudioprocess createPcmBlob inputData s of
      Finished t \<Rightarrow> t = s
    | Awaiting k t \<Rightarrow> t = s \<and> isConnectedRef s) \<and>
   (case video_tick has2d readyState s of
      Finished t \<Rightarrow> t = s
    | Awaiting k t \<Rightarrow> t = s \<and> isConnectedRef s) \<and>
   (case toBlob_callback blob s of
      Finished t \<Rightarrow> t = s
    | Awaiting k t \<Rightarrow> t = s \<and> isConnectedRef s) \<and>
   (case video_encoded base64Data s of
      Finished t \<Rightarrow> t = s
    | Awaiting k t \<Rightarrow> t = s) \<and>
   (\<not> isConnectedRef s \<longrightarrow>
      onaudioprocess createPcmBlob inputData s = Finished s \<and>
      video_tick has2d readyState s = Finished s \<and>
      toBlob_callback blob s = Finished s \<and>
      sends (effects (send_audio_then r pcmBlob s)) = sends (effects s) \<and>
      sends (effects (send_video_then r media s)) = sends (effects s)) \<and>
   (isConnectedRef s \<longrightarrow>
      sends (effects (send_audio_then (SessionResolved session throws) pcmBlob s)) =
        sends (effects s) @ [(session, pcmBlob)] \<and>
      sends (effects (send_video_then (SessionResolved session throws) media s)) =
        sends (effects s) @ [(session, media)]) \<and>
   \<not> isConnectedRef (onclose s) \<and> \<not> isConnectedRef (onerror s) \<and>
   (case disconnect_begin s of
      Finished t \<Rightarrow> \<not> isConnectedRef t
    | Awaiting promise t \<Rightarrow> \<not> isConnectedRef t) \<and>
   mirrors (onopen mounted timer s) \<and> mirrors (onclose s) \<and> mirrors (onerror s) \<and>
   mirrors (disconnect r' s) \<and>
   (mirrors s \<and> connectionState s \<noteq> CONNECTED \<longrightarrow>
      sends (effects (send_audio_then r pcmBlob s)) = sends (effects s) \<and>
      sends (effects (send_video_then r media s)) = sends (effects s)) \<and>
   (audioContextRef s = None \<longrightarrow>
      onmessage_begin decode now m s = Finished (handle_interruption now m s) \<and>
      start_times (effects (handle_interruption now m s)) = start_times (effects s)) \<and>
   start_times (effects (onmessage_resume (Some audioBuffer) n now' p s)) =
     start_times (effects s) @ [nextStartTimeRef s]"
proof -
  have on: "sends (effects (send_audio_then (SessionResolved session throws) pcmBlob s)) =
        sends (effects s) @ [(session, pcmBlob)] \<and>
      sends (effects (send_video_then (SessionResolved session throws) media s)) =
        sends (effects s) @ [(session, media)]" if "isConnectedRef s"
    using that
    by (cases throws) (simp_all add: send_audio_then_def send_video_then_def emit_fields sends_append)
  have off: "sends (effects (send_audio_then r pcmBlob s)) = sends (effects s) \<and>
      sends (effects (send_video_then r media s)) = sends (effects s)"
    if "mirrors s \<and> connectionState s \<noteq> CONNECTED"
    using mirrors_off [of s] that by (simp add: send_audio_then_off send_video_then_off)
  have guards: "onaudioprocess createPcmBlob inputData s = Finished s \<and>
      video_tick has2d readyState s = Finished s \<and>
      toBlob_callback blob s = Finished s \<and>
      sends (effects (send_audio_then r pcmBlob s)) = sends (effects s) \<and>
      sends (effects (send_video_then r media s)) = sends (effects s)" if "\<not> isConnectedRef s"
    using that
    by (simp add: onaudioprocess_off video_tick_off toBlob_callback_off send_audio_then_off
        send_video_then_off)
  have inbound: "onmessage_begin decode now m s = Finished (handle_interruption now m s) \<and>
      start_times (effects (handle_interruption now m s)) = start_times (effects s)"
    if "audioContextRef s = None"
    using that by (simp add: onmessage_begin_no_audio handle_interruption_starts)
  note seg =
    outbound_segments_send_nothing(1) [where createPcmBlob = createPcmBlob
      and inputData = inputData and s = s]
    outbound_segments_send_nothing(2) [where has2d = has2d and readyState = readyState and s = s]
    outbound_segments_send_nothing(3) [where blob = blob and s = s]
    outbound_segments_send_nothing(4) [where base64Data = base64Data and s = s]
  note mir =
    mirrors_callbacks(1) [where mounted = mounted and timer = timer and s = s]
    mirrors_callbacks(2) [where s = s] mirrors_callbacks(3) [where s = s]
    mirrors_callbacks(4) [where r = r' and s = s]
  show ?thesis
    using on off guards inbound seg mir flag_cleared [of s] disconnect_begin_flag [of s]
      onmessage_resume_starts [of audioBuffer n now' p s]
    by blast
qed

lemma onclose_live_call:
  "onclose live_call =
     \<lparr>connectionState = DISCONNECTED, error = None, streamRef = Some 3,
      audioContextRef = Some 5, inputAudioContextRef = Some 4, nextStartTimeRef = 0,
      sessionPromiseRef = Some 6, videoIntervalRef = Some 1, sourceNodesRef = [],
      isConnectedRef = False, effects = [SetSrcObject 3]\<rparr>"
  by (simp add: live_call_eq onclose_def)

lemma hung_up_while_connecting_eq:
  "hung_up_while_connecting =
     \<lparr>connectionState = DISCONNECTED, error = None, streamRef = None,
      audioContextRef = None, inputAudioContextRef = None, nextStartTimeRef = 0,
      sessionPromiseRef = None, videoIntervalRef = None, sourceNodesRef = [],
      isConnectedRef = True,
      effects = [SetSrcObject 3, SessionClose 9, AudioContextClose 4, AudioContextClose 5,
                 TracksStop 3, ClearInterval 1]\<rparr>"
  by (simp add: hung_up_while_connecting_def connecting_eq disconnect_begin_def onopen_def
      disconnect_resume_def disconnect_rest_def stopCamera_def emit_def Let_def)

text \<open>
  After the remote close nothing is sent; during the call the payload is sent; after a
  hang-up an arriving chunk is not decoded.
\<close>

theorem sends_need_flag_scheduling_needs_context_witness:
  "\<not> isConnectedRef (onclose live_call) \<and>
   mirrors (onclose live_call) \<and> connectionState (onclose live_call) \<noteq> CONNECTED \<and>
   sends (effects (send_audio_then (SessionResolved 9 False) (Media [] [])
     (onclose live_call))) = [] \<and>
   sends (effects (send_video_then (SessionResolved 9 False) (Media [] [])
     (onclose live_call))) = [] \<and>
   isConnectedRef live_call \<and>
   sends (effects (send_audio_then (SessionResolved 9 False) (Media [] []) live_call)) =
     [(9, Media [] [])] \<and>
   audioContextRef (disconnect (SessionResolved 9 False) live_call) = None \<and>
   onmessage_begin decode_any 2 audio_message (disconnect (SessionResolved 9 False) live_call) =
     Finished (disconnect (SessionResolved 9 False) live_call)"
  using
    sends_need_flag_scheduling_needs_context [where s = "onclose live_call"
      and r = "SessionResolved 9 False" and pcmBlob = "Media [] []" and media = "Media [] []"]
    sends_need_flag_scheduling_needs_context [where s = live_call and session = 9
      and throws = False and pcmBlob = "Media [] []"]
    sends_need_flag_scheduling_needs_context [where
      s = "disconnect (SessionResolved 9 False) live_call"
      and decode = decode_any and now = 2 and m = audio_message]
  by (simp add: onclose_live_call disconnect_live_call live_call_fields
      handle_interruption_quiet not_interrupted_audio_message mirrors_def)

text \<open>
  Claim C1 as stated fails in both directions. Inbound: a chunk arrives during the call at
  clock 2 and is being decoded when the remote side closes the session; the state is
  \<open>DISCONNECTED\<close> and the flag is cleared, and the continuation still schedules the
  chunk at 2 and registers its source node. Outbound: the user hangs up while the call is
  connecting; \<open>disconnect\<close> clears the flag and waits for the connect promise, the
  session opens and sets the flag, an audio buffer registers its continuation on the same
  promise, and \<open>disconnect\<close> goes on to the state \<open>DISCONNECTED\<close> without
  clearing the flag again: the continuation then sends the buffer.
\<close>

theorem sent_or_scheduled_while_not_connected:
  "onmessage_begin decode_any 2 audio_message live_call =
     Awaiting (PendingChunk 5 audio_message) (live_call\<lparr>nextStartTimeRef := 2\<rparr>) \<and>
   connectionState (onclose (live_call\<lparr>nextStartTimeRef := 2\<rparr>)) = DISCONNECTED \<and>
   \<not> isConnectedRef (onclose (live_call\<lparr>nextStartTimeRef := 2\<rparr>)) \<and>
   start_times (effects (onmessage_resume (Some (AudioBuffer 1)) 7 3
     (PendingChunk 5 audio_message) (onclose (live_call\<lparr>nextStartTimeRef := 2\<rparr>)))) = [2] \<and>
   sourceNodesRef (onmessage_resume (Some (AudioBuffer 1)) 7 3
     (PendingChunk 5 audio_message) (onclose (live_call\<lparr>nextStartTimeRef := 2\<rparr>))) = [7] \<and>
   connectionState connecting = CONNECTING \<and>
   disconnect_begin connecting = Awaiting 6 connecting \<and>
   onaudioprocess (\<lambda>inputData. Media [] []) [] (onopen True 1 connecting) =
     Awaiting (6, Media [] []) (onopen True 1 connecting) \<and>
   hung_up_while_connecting =
     disconnect_resume (SessionResolved 9 False) (onopen True 1 connecting) \<and>
   connectionState hung_up_while_connecting = DISCONNECTED \<and>
   sends (effects hung_up_while_connecting) = [] \<and>
   sends (effects (send_audio_then (SessionResolved 9 False) (Media [] [])
     hung_up_while_connecting)) = [(9, Media [] [])]"
proof -
  have inbound: "onmessage_begin decode_any 2 audio_message live_call =
     Awaiting (PendingChunk 5 audio_message) (live_call\<lparr>nextStartTimeRef := 2\<rparr>)"
    by (simp add: onmessage_begin_audio [OF base64Audio_audio_message js_AAAA live_call_fields(1)]
        decode_any_def live_call_fields)
  have b: "disconnect_begin connecting = Awaiting 6 connecting"
    by (simp add: disconnect_begin_def connecting_eq Let_def)
  have a: "onaudioprocess (\<lambda>inputData. Media [] []) [] (onopen True 1 connecting) =
     Awaiting (6, Media [] []) (onopen True 1 connecting)"
    by (simp add: onaudioprocess_def onopen_def connecting_eq Let_def)
  have h: "hung_up_while_connecting =
     disconnect_resume (SessionResolved 9 False) (onopen True 1 connecting)"
    by (simp add: hung_up_while_connecting_def b)
  have out: "connectionState connecting = CONNECTING \<and>
    connectionState hung_up_while_connecting = DISCONNECTED \<and>
    sends (effects hung_up_while_connecting) = [] \<and>
    sends (effects (send_audio_then (SessionResolved 9 False) (Media [] [])
      hung_up_while_connecting)) = [(9, Media [] [])]"
    by (simp add: hung_up_while_connecting_eq send_audio_then_def emit_def connecting_eq)
  have "connectionState (onclose (live_call\<lparr>nextStartTimeRef := 2\<rparr>)) = DISCONNECTED \<and>
   \<not> isConnectedRef (onclose (live_call\<lparr>nextStartTimeRef := 2\<rparr>)) \<and>
   start_times (effects (onmessage_resume (Some (AudioBuffer 1)) 7 3
     (PendingChunk 5 audio_message) (onclose (live_call\<lparr>nextStartTimeRef := 2\<rparr>)))) = [2] \<and>
   sourceNodesRef (onmessage_resume (Some (AudioBuffer 1)) 7 3
     (PendingChunk 5 audio_message) (onclose (live_call\<lparr>nextStartTimeRef := 2\<rparr>))) = [7]"
    by (simp add: onclose_def onmessage_resume_def handle_interruption_quiet
        not_interrupted_audio_message emit_fields live_call_fields set_add_def)
  then show ?thesis
    using inbound b a h out by blast
qed

section \<open>Runs of overlapping messages\<close>

lemma quiet_pending_simps:
  "quiet_pending []"
  "quiet_pending (ps @ [p]) \<longleftrightarrow> quiet_pending ps \<and> \<not> is_interrupted (pending_message p)"
  by (simp_all add: quiet_pending_def)

lemma quiet_pending_nth:
  "quiet_pending ps \<Longrightarrow> i < length ps \<Longrightarrow> \<not> is_interrupted (pending_message (ps ! i))"
  by (simp add: quiet_pending_def list_all_length)

lemma quiet_pending_remove:
  "quiet_pending ps \<Longrightarrow> quiet_pending (take i ps @ drop (Suc i) ps)"
  unfolding quiet_pending_def list_all_iff
  by (auto dest: in_set_takeD in_set_dropD)

lemma onmessage_resume_quiet:
  assumes "\<not> is_interrupted (pending_message p)"
  shows "onmessage_resume (Some b) n t p s =
           (emit [SourceStart n (nextStartTimeRef s)] s)
             \<lparr>nextStartTimeRef := nextStartTimeRef s + duration b,
              sourceNodesRef := set_add n (sourceNodesRef s)\<rparr>"
    and "onmessage_resume None n t p s = emit [ConsoleError (js ''Error decoding audio:'')] s"
  using assms by (cases p; simp add: onmessage_resume_def handle_interruption_quiet)+

lemma step_settles:
  assumes "i < length ps" and "quiet_pending ps"
  shows "step decode (Settles i (Some b) n t) (ps, s) =
           (take i ps @ drop (Suc i) ps,
            (emit [SourceStart n (nextStartTimeRef s)] s)
              \<lparr>nextStartTimeRef := nextStartTimeRef s + duration b,
               sourceNodesRef := set_add n (sourceNodesRef s)\<rparr>)"
    and "step decode (Settles i None n t) (ps, s) =
           (take i ps @ drop (Suc i) ps, emit [ConsoleError (js ''Error decoding audio:'')] s)"
  using assms by (simp_all add: onmessage_resume_quiet quiet_pending_nth)

lemma step_arrives_audio:
  assumes "audioContextRef s = Some ctx" and "base64Audio m = Some b64" and "b64 \<noteq> []"
    and "\<not> is_interrupted m"
  shows "step decode (Arrives t m) (ps, s) =
     (case decode b64 of
        Some bytes \<Rightarrow>
          (ps @ [PendingChunk ctx m], s\<lparr>nextStartTimeRef := max (nextStartTimeRef s) t\<rparr>)
      | None \<Rightarrow>
          (ps, emit [ConsoleError (js ''Error decoding audio:'')]
                 (s\<lparr>nextStartTimeRef := max (nextStartTimeRef s) t\<rparr>)))"
  by (cases "decode b64")
    (simp_all add: onmessage_begin_audio [OF assms(2,3,1)] handle_interruption_quiet [OF assms(4)])

lemma step_arrives_no_audio:
  assumes "base64Audio m = None \<or> base64Audio m = Some []" and "\<not> is_interrupted m"
  shows "step decode (Arrives t m) (ps, s) = (ps, s)"
proof -
  have "onmessage_begin decode t m s = Finished (handle_interruption t m s)"
    using assms(1) by (intro onmessage_begin_no_audio) auto
  then show ?thesis
    using assms(2) by (simp add: handle_interruption_quiet)
qed

lemma step_quiet:
  assumes ctx: "audioContextRef s = Some ctx" and qp: "quiet_pending ps" and qe: "quiet_event e"
  shows "\<exists>ps' s' ts. step decode e (ps, s) = (ps', s') \<and> audioContextRef s' = Some ctx \<and>
           quiet_pending ps' \<and> nextStartTimeRef s \<le> nextStartTimeRef s' \<and>
           start_times (effects s') = start_times (effects s) @ ts \<and>
           (ts = [] \<or> ts = [nextStartTimeRef s])"
proof (cases e)
  case (Arrives t m)
  with qe have q: "\<not> is_interrupted m" by simp
  show ?thesis
  proof (cases "base64Audio m = None \<or> base64Audio m = Some []")
    case True
    then show ?thesis
      using ctx qp by (simp add: Arrives step_arrives_no_audio [OF True q] del: step.simps)
  next
    case False
    then obtain b64 where b: "base64Audio m = Some b64" "b64 \<noteq> []" by auto
    show ?thesis
      using ctx qp q
      by (cases "decode b64")
        (simp_all add: Arrives step_arrives_audio [OF ctx b q] emit_fields start_times_append
          quiet_pending_simps del: step.simps)
  qed
next
  case (Settles i d n t)
  show ?thesis
  proof (cases "i < length ps")
    case False
    then show ?thesis using ctx qp by (simp add: Settles)
  next
    case True
    note st = step_settles [OF True qp]
    show ?thesis
    proof (cases d)
      case None
      then show ?thesis
        using ctx qp
        by (simp add: Settles st emit_fields start_times_append quiet_pending_remove
            del: step.simps)
    next
      case (Some b)
      with qe Settles have "0 \<le> duration b" by simp
      then show ?thesis
        using ctx qp
        by (simp add: Settles Some st emit_fields start_times_append quiet_pending_remove
            del: step.simps)
    qed
  qed
qed

lemma run_quiet:
  assumes "audioContextRef s = Some ctx" and "quiet_pending ps" and "\<forall>e\<in>set es. quiet_event e"
  shows "\<exists>ts. start_times (effects (snd (run decode es (ps, s)))) = start_times (effects s) @ ts \<and>
           sorted ts \<and> (\<forall>x\<in>set ts. nextStartTimeRef s \<le> x)"
  using assms
proof (induction es arbitrary: ps s)
  case Nil
  then show ?case by simp
next
  case (Cons e es)
  have qe: "quiet_event e" and rest: "\<forall>e\<in>set es. quiet_event e"
    using Cons.prems(3) by simp_all
  from step_quiet [OF Cons.prems(1,2) qe, of decode] obtain ps' s' ts where
    st: "step decode e (ps, s) = (ps', s')" "audioContextRef s' = Some ctx" "quiet_pending ps'"
      "nextStartTimeRef s \<le> nextStartTimeRef s'"
      "start_times (effects s') = start_times (effects s) @ ts"
      "ts = [] \<or> ts = [nextStartTimeRef s]"
    by blast
  from Cons.IH [OF st(2,3) rest] obtain us where
    us: "start_times (effects (snd (run decode es (ps', s')))) = start_times (effects s') @ us"
      "sorted us" "\<forall>x\<in>set us. nextStartTimeRef s' \<le> x"
    by blast
  have low: "\<forall>x\<in>set us. nextStartTimeRef s \<le> x"
    using us(3) st(4) by force
  have "start_times (effects (snd (run decode (e # es) (ps, s)))) =
      start_times (effects s) @ (ts @ us)"
    by (simp add: st(1,5) us(1))
  moreover have "sorted (ts @ us)"
    using st(6) us(2) low by (auto simp: sorted_append)
  moreover have "\<forall>x\<in>set (ts @ us). nextStartTimeRef s \<le> x"
    using st(6) low by auto
  ultimately show ?case by blast
qed

lemma new_starts_quiet:
  assumes "audioContextRef s = Some ctx" and "quiet_pending ps" and "\<forall>e\<in>set es. quiet_event e"
  shows "sorted (new_starts decode es (ps, s))"
    and "\<forall>x\<in>set (new_starts decode es (ps, s)). nextStartTimeRef s \<le> x"
    and "start_times (effects (snd (run decode es (ps, s)))) =
           start_times (effects s) @ new_starts decode es (ps, s)"
proof -
  from run_quiet [OF assms, of decode] obtain ts where
    ts: "start_times (effects (snd (run decode es (ps, s)))) = start_times (effects s) @ ts"
      "sorted ts" "\<forall>x\<in>set ts. nextStartTimeRef s \<le> x"
    by blast
  have "new_starts decode es (ps, s) = ts"
    by (simp add: new_starts_def ts(1))
  with ts show "sorted (new_starts decode es (ps, s))"
    and "\<forall>x\<in>set (new_starts decode es (ps, s)). nextStartTimeRef s \<le> x"
    and "start_times (effects (snd (run decode es (ps, s)))) =
           start_times (effects s) @ new_starts decode es (ps, s)"
    by simp_all
qed

lemma onmessage_as_run:
  "onmessage decode a s =
     snd (run decode [Arrives (clock a) (message a),
                      Settles 0 (decoded a) (node a) (clock_after a)] ([], s))"
  by (cases "onmessage_begin decode (clock a) (message a) s") (simp_all add: onmessage_def)

lemma new_starts_lower:
  assumes "audioContextRef s = Some ctx" and "quiet_pending ps" and "\<forall>e\<in>set es. quiet_event e"
    and "nextStartTimeRef s = c"
  shows "\<forall>x\<in>set (new_starts decode es (ps, s)). c \<le> x"
  using new_starts_quiet(2) [OF assms(1-3)] assms(4) by blast

lemma after_settles:
  assumes ctx: "audioContextRef s = Some ctx" and qp: "quiet_pending ps"
    and qe: "\<forall>e\<in>set es. quiet_event e" and i: "i < length ps" and d: "0 \<le> duration b"
  shows "start_times (effects (snd (step decode (Settles i (Some b) n t) (ps, s)))) =
           start_times (effects s) @ [nextStartTimeRef s] \<and>
         nextStartTimeRef (snd (step decode (Settles i (Some b) n t) (ps, s))) =
           nextStartTimeRef s + duration b \<and>
         (\<forall>x\<in>set (new_starts decode es (step decode (Settles i (Some b) n t) (ps, s))).
            nextStartTimeRef s + duration b \<le> x)"
proof -
  let ?s1 = "(emit [SourceStart n (nextStartTimeRef s)] s)
              \<lparr>nextStartTimeRef := nextStartTimeRef s + duration b,
               sourceNodesRef := set_add n (sourceNodesRef s)\<rparr>"
  have st: "step decode (Settles i (Some b) n t) (ps, s) = (take i ps @ drop (Suc i) ps, ?s1)"
    by (rule step_settles(1) [OF i qp])
  have ctx1: "audioContextRef ?s1 = Some ctx"
    using ctx by (simp add: emit_fields)
  have a: "start_times (effects (snd (step decode (Settles i (Some b) n t) (ps, s)))) =
           start_times (effects s) @ [nextStartTimeRef s]"
    unfolding st by (simp add: emit_fields start_times_append)
  have b: "nextStartTimeRef (snd (step decode (Settles i (Some b) n t) (ps, s))) =
           nextStartTimeRef s + duration b"
    unfolding st by simp
  have c: "\<forall>x\<in>set (new_starts decode es (step decode (Settles i (Some b) n t) (ps, s))).
            nextStartTimeRef s + duration b \<le> x"
    unfolding st
    by (rule new_starts_lower [OF ctx1 quiet_pending_remove [OF qp] qe]) simp
  show ?thesis
    using a b c by blast
qed

lemma after_arrives:
  assumes ctx: "audioContextRef s = Some ctx" and qp: "quiet_pending ps"
    and qe: "\<forall>e\<in>set es. quiet_event e"
    and m: "\<not> is_interrupted m" "base64Audio m = Some b64" "b64 \<noteq> []"
  shows "nextStartTimeRef (snd (step decode (Arrives t m) (ps, s))) = max (nextStartTimeRef s) t \<and>
         (\<forall>x\<in>set (new_starts decode es (step decode (Arrives t m) (ps, s))).
            max (nextStartTimeRef s) t \<le> x)"
proof -
  note st = step_arrives_audio [OF ctx m(2,3,1), of decode t ps]
  show ?thesis
  proof (cases "decode b64")
    case None
    let ?s1 = "emit [ConsoleError (js ''Error decoding audio:'')]
                 (s\<lparr>nextStartTimeRef := max (nextStartTimeRef s) t\<rparr>)"
    have s1: "step decode (Arrives t m) (ps, s) = (ps, ?s1)"
      using st None by (simp del: step.simps)
    have ctx1: "audioContextRef ?s1 = Some ctx"
      using ctx by (simp add: emit_fields)
    have a: "nextStartTimeRef (snd (step decode (Arrives t m) (ps, s))) =
        max (nextStartTimeRef s) t"
      unfolding s1 by (simp add: emit_fields)
    have b: "\<forall>x\<in>set (new_starts decode es (step decode (Arrives t m) (ps, s))).
            max (nextStartTimeRef s) t \<le> x"
      unfolding s1
      by (rule new_starts_lower [OF ctx1 qp qe]) (simp add: emit_fields)
    show ?thesis using a b by blast
  next
    case (Some bytes)
    let ?s1 = "s\<lparr>nextStartTimeRef := max (nextStartTimeRef s) t\<rparr>"
    have s1: "step decode (Arrives t m) (ps, s) = (ps @ [PendingChunk ctx m], ?s1)"
      using st Some by (simp del: step.simps)
    have ctx1: "audioContextRef ?s1 = Some ctx"
      using ctx by simp
    have qp1: "quiet_pending (ps @ [PendingChunk ctx m])"
      using qp m(1) by (simp add: quiet_pending_simps)
    have a: "nextStartTimeRef (snd (step decode (Arrives t m) (ps, s))) =
        max (nextStartTimeRef s) t"
      unfolding s1 by simp
    have b: "\<forall>x\<in>set (new_starts decode es (step decode (Arrives t m) (ps, s))).
            max (nextStartTimeRef s) t \<le> x"
      unfolding s1
      by (rule new_starts_lower [OF ctx1 qp1 qe]) simp
    show ?thesis using a b by blast
  qed
qed

section \<open>Start times of successive chunks\<close>

text \<open>
  Claim C2, as amended. For chunks that decode, with non-negative durations, during a call
  and with no interruption: on arrival the cursor is raised to the larger of the cursor
  and the playback clock; when its decoding has finished the chunk is started at the
  cursor, and the cursor is advanced by the chunk's duration. However arrivals and
  finished decodings interleave, the start times are non-decreasing in the order in which
  the chunks are started, no chunk starts before the cursor and clock of its arrival, and
  every later chunk starts no earlier than an earlier start plus that chunk's duration.
  When each chunk's decoding finishes before the next message arrives, the chunks are
  started in arrival order, each at the larger of the cursor and the clock on its arrival,
  which is the larger of the previous start plus the previous duration and the clock, and
  so equals the previous start plus the previous duration exactly when the clock has not
  passed that point.
\<close>

theorem chunks_follow_cursor_and_clock:
  assumes "audioContextRef s \<noteq> None"
    and "\<forall>a\<in>set as. plays decode a \<and> 0 \<le> chunk_duration a"
    and "quiet_pending ps" and "\<forall>e\<in>set es. quiet_event e"
  shows "start_times (effects (receive_all decode as s)) =
           start_times (effects s) @ spec_schedule (nextStartTimeRef s) as \<and>
         length (spec_schedule (nextStartTimeRef s) as) = length as \<and>
         nextStartTimeRef (receive_all decode as s) = spec_cursor (nextStartTimeRef s) as \<and>
         (\<forall>a. plays decode a \<longrightarrow>
            start_times (effects (onmessage decode a s)) =
              start_times (effects s) @ [max (nextStartTimeRef s) (clock a)] \<and>
            nextStartTimeRef (onmessage decode a s) =
              max (nextStartTimeRef s) (clock a) + chunk_duration a) \<and>
         sorted (spec_schedule (nextStartTimeRef s) as) \<and>
         (\<forall>i. Suc i < length as \<longrightarrow>
            spec_schedule (nextStartTimeRef s) as ! Suc i =
              max (spec_schedule (nextStartTimeRef s) as ! i + chunk_duration (as ! i))
                  (clock (as ! Suc i))) \<and>
         (\<forall>i. Suc i < length as \<and>
              clock (as ! Suc i) \<le> spec_schedule (nextStartTimeRef s) as ! i + chunk_duration (as ! i)
            \<longrightarrow> spec_schedule (nextStartTimeRef s) as ! Suc i =
                  spec_schedule (nextStartTimeRef s) as ! i + chunk_duration (as ! i)) \<and>
         (\<forall>a. onmessage decode a s =
            snd (run decode [Arrives (clock a) (message a),
                             Settles 0 (decoded a) (node a) (clock_after a)] ([], s))) \<and>
         start_times (effects (snd (run decode es (ps, s)))) =
           start_times (effects s) @ new_starts decode es (ps, s) \<and>
         sorted (new_starts decode es (ps, s)) \<and>
         (\<forall>x\<in>set (new_starts decode es (ps, s)). nextStartTimeRef s \<le> x) \<and>
         (\<forall>i b n t. i < length ps \<and> 0 \<le> duration b \<longrightarrow>
            start_times (effects (snd (step decode (Settles i (Some b) n t) (ps, s)))) =
              start_times (effects s) @ [nextStartTimeRef s] \<and>
            nextStartTimeRef (snd (step decode (Settles i (Some b) n t) (ps, s))) =
              nextStartTimeRef s + duration b \<and>
            (\<forall>x\<in>set (new_starts decode es (step decode (Settles i (Some b) n t) (ps, s))).
               nextStartTimeRef s + duration b \<le> x)) \<and>
         (\<forall>t m b64. \<not> is_interrupted m \<and> base64Audio m = Some b64 \<and> b64 \<noteq> [] \<longrightarrow>
            nextStartTimeRef (snd (step decode (Arrives t m) (ps, s))) =
              max (nextStartTimeRef s) t \<and>
            (\<forall>x\<in>set (new_starts decode es (step decode (Arrives t m) (ps, s))).
               max (nextStartTimeRef s) t \<le> x))"
proof -
  from assms(1) obtain ctx where ctx: "audioContextRef s = Some ctx" by auto
  have p: "\<forall>a\<in>set as. plays decode a" and d: "\<forall>a\<in>set as. 0 \<le> chunk_duration a"
    using assms(2) by simp_all
  have run: "start_times (effects (receive_all decode as s)) =
           start_times (effects s) @ spec_schedule (nextStartTimeRef s) as"
    "nextStartTimeRef (receive_all decode as s) = spec_cursor (nextStartTimeRef s) as"
    using receive_all_plays [OF ctx p] by simp_all
  have one: "start_times (effects (onmessage decode a s)) =
              start_times (effects s) @ [max (nextStartTimeRef s) (clock a)] \<and>
            nextStartTimeRef (onmessage decode a s) =
              max (nextStartTimeRef s) (clock a) + chunk_duration a" if "plays decode a" for a
    by (simp add: onmessage_plays_fields [OF ctx that] start_times_append)
  have step: "spec_schedule (nextStartTimeRef s) as ! Suc i =
              max (spec_schedule (nextStartTimeRef s) as ! i + chunk_duration (as ! i))
                  (clock (as ! Suc i))" if "Suc i < length as" for i
    by (rule spec_schedule_step [OF that])
  have gapless: "spec_schedule (nextStartTimeRef s) as ! Suc i =
                  spec_schedule (nextStartTimeRef s) as ! i + chunk_duration (as ! i)"
    if "Suc i < length as \<and>
        clock (as ! Suc i) \<le> spec_schedule (nextStartTimeRef s) as ! i + chunk_duration (as ! i)"
    for i
    using that step [of i] by (simp only: max_def) simp
  have sequential: "start_times (effects (receive_all decode as s)) =
           start_times (effects s) @ spec_schedule (nextStartTimeRef s) as \<and>
         length (spec_schedule (nextStartTimeRef s) as) = length as \<and>
         nextStartTimeRef (receive_all decode as s) = spec_cursor (nextStartTimeRef s) as \<and>
         (\<forall>a. plays decode a \<longrightarrow>
            start_times (effects (onmessage decode a s)) =
              start_times (effects s) @ [max (nextStartTimeRef s) (clock a)] \<and>
            nextStartTimeRef (onmessage decode a s) =
              max (nextStartTimeRef s) (clock a) + chunk_duration a) \<and>
         sorted (spec_schedule (nextStartTimeRef s) as) \<and>
         (\<forall>i. Suc i < length as \<longrightarrow>
            spec_schedule (nextStartTimeRef s) as ! Suc i =
              max (spec_schedule (nextStartTimeRef s) as ! i + chunk_duration (as ! i))
                  (clock (as ! Suc i))) \<and>
         (\<forall>i. Suc i < length as \<and>
              clock (as ! Suc i) \<le> spec_schedule (nextStartTimeRef s) as ! i + chunk_duration (as ! i)
            \<longrightarrow> spec_schedule (nextStartTimeRef s) as ! Suc i =
                  spec_schedule (nextStartTimeRef s) as ! i + chunk_duration (as ! i))"
    using run one step gapless sorted_spec_schedule [OF d] length_spec_schedule
    by blast
  note q = new_starts_quiet [OF ctx assms(3,4), of decode]
  have settles: "start_times (effects (snd (step decode (Settles i (Some b) n t) (ps, s)))) =
              start_times (effects s) @ [nextStartTimeRef s] \<and>
            nextStartTimeRef (snd (step decode (Settles i (Some b) n t) (ps, s))) =
              nextStartTimeRef s + duration b \<and>
            (\<forall>x\<in>set (new_starts decode es (step decode (Settles i (Some b) n t) (ps, s))).
               nextStartTimeRef s + duration b \<le> x)"
    if "i < length ps \<and> 0 \<le> duration b" for i b n t
    using that after_settles [OF ctx assms(3,4)] by blast
  have arrives: "nextStartTimeRef (snd (step decode (Arrives t m) (ps, s))) =
              max (nextStartTimeRef s) t \<and>
            (\<forall>x\<in>set (new_starts decode es (step decode (Arrives t m) (ps, s))).
               max (nextStartTimeRef s) t \<le> x)"
    if "\<not> is_interrupted m \<and> base64Audio m = Some b64 \<and> b64 \<noteq> []" for t m b64
    using that after_arrives [OF ctx assms(3,4)] by blast
  have link: "\<forall>a. onmessage decode a s =
            snd (run decode [Arrives (clock a) (message a),
                             Settles 0 (decoded a) (node a) (clock_after a)] ([], s))"
    using onmessage_as_run by blast
  have interleaved: "(\<forall>a. onmessage decode a s =
            snd (run decode [Arrives (clock a) (message a),
                             Settles 0 (decoded a) (node a) (clock_after a)] ([], s))) \<and>
         start_times (effects (snd (run decode es (ps, s)))) =
           start_times (effects s) @ new_starts decode es (ps, s) \<and>
         sorted (new_starts decode es (ps, s)) \<and>
         (\<forall>x\<in>set (new_starts decode es (ps, s)). nextStartTimeRef s \<le> x) \<and>
         (\<forall>i b n t. i < length ps \<and> 0 \<le> duration b \<longrightarrow>
            start_times (effects (snd (step decode (Settles i (Some b) n t) (ps, s)))) =
              start_times (effects s) @ [nextStartTimeRef s] \<and>
            nextStartTimeRef (snd (step decode (Settles i (Some b) n t) (ps, s))) =
              nextStartTimeRef s + duration b \<and>
            (\<forall>x\<in>set (new_starts decode es (step decode (Settles i (Some b) n t) (ps, s))).
               nextStartTimeRef s + duration b \<le> x)) \<and>
         (\<forall>t m b64. \<not> is_interrupted m \<and> base64Audio m = Some b64 \<and> b64 \<noteq> [] \<longrightarrow>
            nextStartTimeRef (snd (step decode (Arrives t m) (ps, s))) =
              max (nextStartTimeRef s) t \<and>
            (\<forall>x\<in>set (new_starts decode es (step decode (Arrives t m) (ps, s))).
               max (nextStartTimeRef s) t \<le> x))"
    using link q settles arrives by blast
  from sequential interleaved show ?thesis
    by (elim conjE) (intro conjI; assumption)
qed

lemma overlapping_run:
  "snd (run decode_any
     [Arrives 0 audio_message, Arrives 0 audio_message,
      Settles 1 (Some (AudioBuffer 2)) 8 0, Settles 0 (Some (AudioBuffer 1)) 7 0]
     ([], live_call)) =
     \<lparr>connectionState = CONNECTED, error = None, streamRef = Some 3,
      audioContextRef = Some 5, inputAudioContextRef = Some 4, nextStartTimeRef = 3,
      sessionPromiseRef = Some 6, videoIntervalRef = Some 1, sourceNodesRef = [8, 7],
      isConnectedRef = True,
      effects = [SetSrcObject 3, SourceStart 8 0, SourceStart 7 2]\<rparr>"
  by (simp add: live_call_eq onmessage_begin_def base64Audio_audio_message js_AAAA
      decode_any_def onmessage_resume_def handle_interruption_def
      not_interrupted_audio_message emit_def set_add_def Let_def)

text \<open>
  Two chunks of one second, the second arriving while the first plays; and two chunks in
  flight together, the second decoded first.
\<close>

theorem chunks_follow_cursor_and_clock_witness:
  "audioContextRef live_call \<noteq> None \<and>
   plays decode_any (chunk 0 1 7) \<and> plays decode_any (chunk (1 / 2) 1 8) \<and>
   quiet_pending [] \<and>
   quiet_event (Arrives 0 audio_message) \<and> quiet_event (Settles 1 (Some (AudioBuffer 2)) 8 0) \<and>
   quiet_event (Settles 0 (Some (AudioBuffer 1)) 7 0) \<and>
   start_times (effects (receive_all decode_any [chunk 0 1 7, chunk (1 / 2) 1 8] live_call)) =
     [0, 1] \<and>
   nextStartTimeRef (receive_all decode_any [chunk 0 1 7, chunk (1 / 2) 1 8] live_call) = 2 \<and>
   new_starts decode_any
     [Arrives 0 audio_message, Arrives 0 audio_message,
      Settles 1 (Some (AudioBuffer 2)) 8 0, Settles 0 (Some (AudioBuffer 1)) 7 0]
     ([], live_call) = [0, 2] \<and>
   sorted (new_starts decode_any
     [Arrives 0 audio_message, Arrives 0 audio_message,
      Settles 1 (Some (AudioBuffer 2)) 8 0, Settles 0 (Some (AudioBuffer 1)) 7 0]
     ([], live_call))"
proof -
  have h: "audioContextRef live_call \<noteq> None"
    "\<forall>a\<in>set [chunk 0 1 7, chunk (1 / 2) 1 8]. plays decode_any a \<and> 0 \<le> chunk_duration a"
    "quiet_pending []"
    "\<forall>e\<in>set [Arrives 0 audio_message, Arrives 0 audio_message,
      Settles 1 (Some (AudioBuffer 2)) 8 0, Settles 0 (Some (AudioBuffer 1)) 7 0]. quiet_event e"
    by (simp_all add: live_call_fields plays_chunk chunk_fields quiet_pending_simps
        not_interrupted_audio_message)
  have n: "new_starts decode_any
     [Arrives 0 audio_message, Arrives 0 audio_message,
      Settles 1 (Some (AudioBuffer 2)) 8 0, Settles 0 (Some (AudioBuffer 1)) 7 0]
     ([], live_call) = [0, 2]"
    by (simp only: new_starts_def overlapping_run) (simp add: live_call_fields)
  have q: "quiet_event (Arrives 0 audio_message) \<and>
      quiet_event (Settles 1 (Some (AudioBuffer 2)) 8 0) \<and>
      quiet_event (Settles 0 (Some (AudioBuffer 1)) 7 0)"
    by (simp add: not_interrupted_audio_message)
  note t = chunks_follow_cursor_and_clock [OF h]
  from t have a: "start_times (effects (receive_all decode_any
        [chunk 0 1 7, chunk (1 / 2) 1 8] live_call)) =
      start_times (effects live_call) @ spec_schedule (nextStartTimeRef live_call)
        [chunk 0 1 7, chunk (1 / 2) 1 8]"
    and b: "nextStartTimeRef (receive_all decode_any [chunk 0 1 7, chunk (1 / 2) 1 8] live_call) =
      spec_cursor (nextStartTimeRef live_call) [chunk 0 1 7, chunk (1 / 2) 1 8]"
    and c: "sorted (new_starts decode_any
     [Arrives 0 audio_message, Arrives 0 audio_message,
      Settles 1 (Some (AudioBuffer 2)) 8 0, Settles 0 (Some (AudioBuffer 1)) 7 0]
     ([], live_call))"
    by blast+
  have a': "start_times (effects (receive_all decode_any
        [chunk 0 1 7, chunk (1 / 2) 1 8] live_call)) = [0, 1]"
    unfolding a by (simp add: live_call_fields chunk_fields)
  have b': "nextStartTimeRef (receive_all decode_any
        [chunk 0 1 7, chunk (1 / 2) 1 8] live_call) = 2"
    unfolding b by (simp add: live_call_fields chunk_fields)
  from h(1,3) plays_chunk [of 0 1 7] plays_chunk [of "1 / 2" 1 8] q a' b' n c show ?thesis
    by (elim conjE) (intro conjI; assumption)
qed

text \<open>
  Claim C2 as stated fails in two ways. A chunk that arrives after the previous one has
  ended starts at the clock, 5, not at the first start plus the first duration, 1. And
  with two chunks in flight, both arrived at clock 0 with the cursor at 0, the one that
  arrived second is decoded first and starts at 0 for two seconds; the one that arrived
  first then starts at 2, which is not the larger of the cursor and the clock on its
  arrival, and in arrival order the start times go down.
\<close>

theorem late_or_overlapping_chunks_break_the_schedule:
  "plays decode_any (chunk 0 1 7) \<and> plays decode_any (chunk 5 1 8) \<and>
   \<not> is_interrupted (message (chunk 0 1 7)) \<and> \<not> is_interrupted (message (chunk 5 1 8)) \<and>
   start_times (effects (receive_all decode_any [chunk 0 1 7, chunk 5 1 8] live_call)) = [0, 5] \<and>
   (5::real) \<noteq> 0 + chunk_duration (chunk 0 1 7) \<and>
   nextStartTimeRef live_call = 0 \<and>
   effects (snd (run decode_any
     [Arrives 0 audio_message, Arrives 0 audio_message,
      Settles 1 (Some (AudioBuffer 2)) 8 0, Settles 0 (Some (AudioBuffer 1)) 7 0]
     ([], live_call))) = [SetSrcObject 3, SourceStart 8 0, SourceStart 7 2] \<and>
   (2::real) \<noteq> max 0 0"
proof -
  have "start_times (effects (receive_all decode_any [chunk 0 1 7, chunk 5 1 8] live_call)) =
      start_times (effects live_call) @ spec_schedule (nextStartTimeRef live_call)
        [chunk 0 1 7, chunk 5 1 8]"
    using receive_all_plays [OF live_call_fields(1), of "[chunk 0 1 7, chunk 5 1 8]" decode_any]
    by (simp add: plays_chunk)
  then have late: "plays decode_any (chunk 0 1 7) \<and> plays decode_any (chunk 5 1 8) \<and>
   \<not> is_interrupted (message (chunk 0 1 7)) \<and> \<not> is_interrupted (message (chunk 5 1 8)) \<and>
   start_times (effects (receive_all decode_any [chunk 0 1 7, chunk 5 1 8] live_call)) = [0, 5] \<and>
   (5::real) \<noteq> 0 + chunk_duration (chunk 0 1 7)"
    by (simp add: live_call_fields plays_chunk chunk_fields)
      (simp add: chunk_def not_interrupted_audio_message)
  have overlap: "effects (snd (run decode_any
     [Arrives 0 audio_message, Arrives 0 audio_message,
      Settles 1 (Some (AudioBuffer 2)) 8 0, Settles 0 (Some (AudioBuffer 1)) 7 0]
     ([], live_call))) = [SetSrcObject 3, SourceStart 8 0, SourceStart 7 2]"
    by (simp only: overlapping_run) simp
  have "(2::real) \<noteq> max 0 0" by simp
  with late overlap live_call_fields(2) show ?thesis
    by (elim conjE) (intro conjI; assumption)
qed

section \<open>Interruption\<close>










section \<open>A chunk that fails to decode\<close>

text \<open>
  Claim C5, as amended. When a chunk fails to decode during a call (\<open>decode\<close> throws
  or \<open>decodeAudioData\<close> rejects), nothing is scheduled, "Error decoding audio:" is
  logged, no source node is added and the output context stays. The cursor is not advanced
  by any duration, but it has been raised to the playback clock if it was behind it, since
  that assignment precedes the \<open>try\<close>. The handler then returns normally, and the
  next chunk that decodes is scheduled as usual. (If the same message also signals an
  interruption, that is handled as for any message.)
\<close>

theorem failed_decode_drops_chunk:
  assumes "audioContextRef s \<noteq> None" and "fails_to_decode decode a"
  shows "start_times (effects (onmessage decode a s)) = start_times (effects s) \<and>
         error_logs (effects (onmessage decode a s)) =
           error_logs (effects s) @ [js ''Error decoding audio:''] \<and>
         set (sourceNodesRef (onmessage decode a s)) \<subseteq> set (sourceNodesRef s) \<and>
         audioContextRef (onmessage decode a s) = audioContextRef s \<and>
         (\<not> is_interrupted (message a) \<longrightarrow>
            sourceNodesRef (onmessage decode a s) = sourceNodesRef s \<and>
            nextStartTimeRef (onmessage decode a s) = max (nextStartTimeRef s) (clock a) \<and>
            (\<forall>b. plays decode b \<longrightarrow>
               start_times (effects (onmessage decode b (onmessage decode a s))) =
                 start_times (effects s) @ [max (max (nextStartTimeRef s) (clock a)) (clock b)]))"
proof -
  from assms(1) obtain ctx where ctx: "audioContextRef s = Some ctx" by auto
  define t where "t = emit [ConsoleError (js ''Error decoding audio:'')]
          (s\<lparr>nextStartTimeRef := max (nextStartTimeRef s) (clock a)\<rparr>)"
  obtain c where run: "onmessage decode a s = handle_interruption c (message a) t"
    using onmessage_fails [OF ctx assms(2)] unfolding t_def by blast
  have t: "effects t = effects s @ [ConsoleError (js ''Error decoding audio:'')]"
    "sourceNodesRef t = sourceNodesRef s" "audioContextRef t = Some ctx"
    "nextStartTimeRef t = max (nextStartTimeRef s) (clock a)"
    using ctx by (simp_all add: t_def emit_fields)
  have starts: "start_times (effects (onmessage decode a s)) = start_times (effects s)"
    by (simp add: run handle_interruption_starts t start_times_append)
  have logs: "error_logs (effects (onmessage decode a s)) =
           error_logs (effects s) @ [js ''Error decoding audio:'']"
    by (simp add: run handle_interruption_error_logs t error_logs_append)
  have nodes: "set (sourceNodesRef (onmessage decode a s)) \<subseteq> set (sourceNodesRef s)"
    by (cases "is_interrupted (message a)")
      (simp_all add: run handle_interruption_quiet handle_interruption_flush t)
  have same_context: "audioContextRef (onmessage decode a s) = audioContextRef s"
    by (simp add: run handle_interruption_context t ctx)
  have quiet: "sourceNodesRef (onmessage decode a s) = sourceNodesRef s \<and>
            nextStartTimeRef (onmessage decode a s) = max (nextStartTimeRef s) (clock a) \<and>
            (\<forall>b. plays decode b \<longrightarrow>
               start_times (effects (onmessage decode b (onmessage decode a s))) =
                 start_times (effects s) @ [max (max (nextStartTimeRef s) (clock a)) (clock b)])"
    if q: "\<not> is_interrupted (message a)"
  proof -
    have same: "onmessage decode a s = t"
      by (simp add: run handle_interruption_quiet [OF q])
    have "start_times (effects (onmessage decode b t)) =
        start_times (effects s) @ [max (max (nextStartTimeRef s) (clock a)) (clock b)]"
      if "plays decode b" for b
      by (simp add: onmessage_plays_fields [OF t(3) that] t start_times_append)
    then show ?thesis
      by (simp add: same t)
  qed
  show ?thesis
    using starts logs nodes same_context quiet by blast
qed

text \<open>An undecodable chunk at clock 5, then a good one at clock 6.\<close>

theorem failed_decode_drops_chunk_witness:
  "audioContextRef live_call \<noteq> None \<and> fails_to_decode decode_any (undecodable 5) \<and>
   \<not> is_interrupted (message (undecodable 5)) \<and> plays decode_any (chunk 6 1 8) \<and>
   start_times (effects (onmessage decode_any (undecodable 5) live_call)) = [] \<and>
   error_logs (effects (onmessage decode_any (undecodable 5) live_call)) =
     [js ''Error decoding audio:''] \<and>
   sourceNodesRef (onmessage decode_any (undecodable 5) live_call) = [] \<and>
   start_times (effects (onmessage decode_any (chunk 6 1 8)
     (onmessage decode_any (undecodable 5) live_call))) = [6]"
proof -
  have h: "audioContextRef live_call \<noteq> None" "fails_to_decode decode_any (undecodable 5)"
    by (simp_all add: live_call_fields fails_undecodable)
  have q: "\<not> is_interrupted (message (undecodable 5))"
    by (simp add: undecodable_def not_interrupted_audio_message)
  show ?thesis
    using h q failed_decode_drops_chunk [OF h] plays_chunk [of 6 1 8]
    by (simp add: live_call_fields chunk_fields undecodable_def)
qed

text \<open>
  Claim C5 as stated fails for the cursor: it is 0 before the undecodable chunk arrives at
  clock 5, and 5 afterwards.
\<close>

theorem failed_decode_moves_cursor_to_clock:
  "audioContextRef live_call \<noteq> None \<and> fails_to_decode decode_any (undecodable 5) \<and>
   \<not> is_interrupted (message (undecodable 5)) \<and>
   nextStartTimeRef live_call = 0 \<and>
   nextStartTimeRef (onmessage decode_any (undecodable 5) live_call) = 5"
proof -
  have q: "\<not> is_interrupted (message (undecodable 5))"
    by (simp add: undecodable_def not_interrupted_audio_message)
  have "onmessage decode_any (undecodable 5) live_call =
      handle_interruption 5 (message (undecodable 5))
        (emit [ConsoleError (js ''Error decoding audio:'')]
           (live_call\<lparr>nextStartTimeRef := max (nextStartTimeRef live_call) 5\<rparr>))"
    using onmessage_fails [OF live_call_fields(1) fails_undecodable, of 5]
    by (simp add: undecodable_def base64Audio_audio_message decode_any_def)
  then show ?thesis
    using q by (simp add: handle_interruption_quiet emit_fields live_call_fields fails_undecodable)
qed

section \<open>Only the first part of a message carries audio\<close>

lemma onmessage_same:
  assumes "base64Audio m = base64Audio m'" and "is_interrupted m = is_interrupted m'"
  shows "onmessage decode (a\<lparr>message := m\<rparr>) s = onmessage decode (a\<lparr>message := m'\<rparr>) s"
proof -
  have i: "handle_interruption c m t = handle_interruption c m' t" for c t
    using assms(2) by (simp add: handle_interruption_def)
  show ?thesis
  proof (cases "base64Audio m' = None \<or> base64Audio m' = Some [] \<or> audioContextRef s = None")
    case True
    then show ?thesis
      using assms(1) by (simp add: onmessage_def onmessage_begin_no_audio i)
  next
    case False
    then obtain b64 ctx where
      b: "base64Audio m' = Some b64" "b64 \<noteq> []" "audioContextRef s = Some ctx"
      by auto
    from b(1) assms(1) have b': "base64Audio m = Some b64" by simp
    show ?thesis
      by (cases "decode b64")
        (simp_all add: onmessage_def onmessage_begin_audio [OF b] 
          onmessage_begin_audio [OF b' b(2,3)] onmessage_resume_def i)
  qed
qed

lemma base64Audio_with_parts:
  "base64Audio (with_parts (p # ps) i) = Option.bind (inlineData p) data"
  "base64Audio (with_parts [] i) = None"
  "is_interrupted (with_parts ps i) = (i = Some True)"
  by (simp_all add: with_parts_def base64Audio_def first_part_def is_interrupted_def)

text \<open>
  Claim C9. The audio of a message is read from its first part only: the parts after the
  first change neither the audio found nor anything \<open>onmessage\<close> does, and when the
  first part has no inline data the message is not decoded and nothing is scheduled,
  whatever its other parts carry.
\<close>

theorem only_first_part_examined:
  "base64Audio (with_parts (p # ps) i) = base64Audio (with_parts [p] i) \<and>
   onmessage decode (a\<lparr>message := with_parts (p # ps) i\<rparr>) s =
     onmessage decode (a\<lparr>message := with_parts [p] i\<rparr>) s \<and>
   (Option.bind (inlineData p) data = None \<longrightarrow>
      onmessage_begin decode now (with_parts (p # ps) i) s =
        Finished (handle_interruption now (with_parts (p # ps) i) s) \<and>
      start_times (effects (onmessage decode (a\<lparr>message := with_parts (p # ps) i\<rparr>) s)) =
        start_times (effects s))"
proof -
  have same: "base64Audio (with_parts (p # ps) i) = base64Audio (with_parts [p] i)"
    by (simp add: base64Audio_with_parts)
  have run: "onmessage decode (a\<lparr>message := with_parts (p # ps) i\<rparr>) s =
     onmessage decode (a\<lparr>message := with_parts [p] i\<rparr>) s"
    by (rule onmessage_same [OF same]) (simp add: base64Audio_with_parts)
  have none: "onmessage_begin decode now (with_parts (p # ps) i) s =
        Finished (handle_interruption now (with_parts (p # ps) i) s) \<and>
      start_times (effects (onmessage decode (a\<lparr>message := with_parts (p # ps) i\<rparr>) s)) =
        start_times (effects s)"
    if "Option.bind (inlineData p) data = None"
  proof -
    have "base64Audio (with_parts (p # ps) i) = None"
      using that by (simp add: base64Audio_with_parts)
    then show ?thesis
      by (simp add: onmessage_def onmessage_begin_no_audio handle_interruption_starts)
  qed
  show ?thesis
    using same run none by blast
qed

text \<open>A message whose second part carries audio and whose first part does not.\<close>

theorem only_first_part_examined_witness:
  "Option.bind (inlineData (Part None)) data = None \<and>
   base64Audio (with_parts [audio_part] None) = Some (js ''AAAA'') \<and>
   base64Audio (with_parts [Part None, audio_part] None) = None \<and>
   onmessage_begin decode_any 2 (with_parts [Part None, audio_part] None) live_call =
     Finished live_call \<and>
   start_times (effects (onmessage decode_any
     ((chunk 2 1 7)\<lparr>message := with_parts [Part None, audio_part] None\<rparr>) live_call)) = []"
proof -
  have a: "base64Audio (with_parts [audio_part] None) = Some (js ''AAAA'')"
    using base64Audio_audio_message by (simp add: audio_message_def)
  have q: "\<not> is_interrupted (with_parts [Part None, audio_part] None)"
    by (simp add: base64Audio_with_parts)
  have n: "Option.bind (inlineData (Part None)) data = None"
    by simp
  note t = only_first_part_examined [of "Part None" "[audio_part]" None decode_any
      "chunk 2 1 7" live_call 2]
  from t n have b: "onmessage_begin decode_any 2 (with_parts [Part None, audio_part] None)
        live_call =
      Finished (handle_interruption 2 (with_parts [Part None, audio_part] None) live_call)"
    and c: "start_times (effects (onmessage decode_any
        ((chunk 2 1 7)\<lparr>message := with_parts [Part None, audio_part] None\<rparr>) live_call)) =
      start_times (effects live_call)"
    by blast+
  show ?thesis
    using a n b c
    by (simp add: base64Audio_with_parts(1) [of "Part None"] handle_interruption_quiet [OF q]
        live_call_fields)
qed

section \<open>Sending a chat message\<close>

lemma trim_empty_iff: "trim s = [] \<longleftrightarrow> (\<forall>c\<in>set s. is_js_whitespace c)"
proof
  assume "trim s = []"
  then have "\<forall>c\<in>set (dropWhile is_js_whitespace s). is_js_whitespace c"
    by (simp add: trim_def dropWhile_eq_Nil_conv)
  then have "dropWhile is_js_whitespace s = []"
    using hd_dropWhile [of is_js_whitespace s] hd_in_set by blast
  then show "\<forall>c\<in>set s. is_js_whitespace c"
    by (simp add: dropWhile_eq_Nil_conv)
next
  assume "\<forall>c\<in>set s. is_js_whitespace c"
  then show "trim s = []"
    by (auto simp: trim_def dest: set_dropWhileD)
qed

lemma length_slice_last: "length (slice_last n xs) = min n (length xs)"
  by (simp add: slice_last_def)

lemma slice_last_suffix: "take (length xs - n) xs @ slice_last n xs = xs"
  by (simp add: slice_last_def)

lemma slice_last_short: "length xs \<le> n \<Longrightarrow> slice_last n xs = xs"
  by (simp add: slice_last_def)

text \<open>
  Claim C8, as amended. A send whose input is not blank (something is left after trimming
  white space) and whose API key is not empty issues one request: its contents are the
  fixed system-context turn, then the last five messages of the chat before this send (all
  of them when there are fewer), then the new input as a user turn. The message appended
  when the response arrives carries the response's text, or the fallback sentence when the
  text is undefined or empty; when the request fails it carries the apology; either way
  the loading flag is cleared.
\<close>

theorem send_issues_one_request_with_window:
  assumes "trim (input s) \<noteq> []" and "apiKey \<noteq> []"
  shows "handleSend_begin apiKey now date s =
           Awaiting
             \<lparr>model = js ''gemini-3-pro-preview'',
              contents =
                system_context
                # map (\<lambda>m. Turn (role m) (text' m)) (slice_last 5 (messages s))
                @ [Turn User (input s)],
              thinkingBudget = 1024\<rparr>
             (s\<lparr>messages := messages s @
                  [\<lparr>id' = toString now, role = User, text' = input s, timestamp = date,
                    isThinking = None\<rparr>],
                input := [], isLoading := True\<rparr>) \<and>
         length (slice_last 5 (messages s)) = min 5 (length (messages s)) \<and>
         take (length (messages s) - 5) (messages s) @ slice_last 5 (messages s) = messages s \<and>
         messages (handleSend_resume (Response t) now' date' s') =
           messages s' @
             [\<lparr>id' = toString (now' + 1), role = Model, text' = rendered_text t,
               timestamp = date', isThinking = Some True\<rparr>] \<and>
         (\<forall>x. x \<noteq> [] \<longrightarrow> rendered_text (Some x) = x) \<and>
         rendered_text None = fallback_text \<and> rendered_text (Some []) = fallback_text \<and>
         messages (handleSend_resume RequestFailed now' date' s') =
           messages s' @
             [\<lparr>id' = toString now', role = Model, text' = trouble_text,
               timestamp = date', isThinking = None\<rparr>] \<and>
         \<not> isLoading (handleSend_resume r now' date' s')"
  using assms
  by (simp add: handleSend_begin_def handleSend_resume_def Let_def length_slice_last
      slice_last_suffix rendered_text_def)

lemma is_js_whitespace_32: "is_js_whitespace 32"
  by (simp add: is_js_whitespace_def)

text \<open>The first send after mounting: the window holds the welcome message only.\<close>

theorem send_issues_one_request_with_window_witness:
  "trim (input ((chat_initial 0)\<lparr>input := js ''hi''\<rparr>)) \<noteq> [] \<and> js ''key'' \<noteq> [] \<and>
   handleSend_begin (js ''key'') 7 7 ((chat_initial 0)\<lparr>input := js ''hi''\<rparr>) =
     Awaiting
       \<lparr>model = js ''gemini-3-pro-preview'',
        contents = [system_context, Turn Model (text' (welcome_message 0)), Turn User (js ''hi'')],
        thinkingBudget = 1024\<rparr>
       \<lparr>messages = [welcome_message 0,
          \<lparr>id' = toString 7, role = User, text' = js ''hi'', timestamp = 7, isThinking = None\<rparr>],
        input = [], isLoading = True\<rparr>"
proof -
  have h: "trim (input ((chat_initial 0)\<lparr>input := js ''hi''\<rparr>)) \<noteq> []" "js ''key'' \<noteq> []"
    by (simp_all add: trim_empty_iff chat_initial_def js_def is_js_whitespace_def)
  show ?thesis
    using h send_issues_one_request_with_window [OF h, of 7 7]
    by (simp add: chat_initial_def slice_last_def welcome_message_def)
qed

text \<open>
  Claim C8 as stated fails for an input that is not empty but blank: a single space with
  an API key present issues no request.
\<close>

theorem blank_input_issues_no_request:
  "input ((chat_initial 0)\<lparr>input := [32]\<rparr>) \<noteq> [] \<and> js ''key'' \<noteq> [] \<and>
   handleSend_begin (js ''key'') 7 7 ((chat_initial 0)\<lparr>input := [32]\<rparr>) =
     Finished ((chat_initial 0)\<lparr>input := [32]\<rparr>)"
  by (simp add: handleSend_begin_def trim_empty_iff is_js_whitespace_32 js_def)

text \<open>
  Claim C10. A send whose input is empty or consists of white space only, or whose API key
  is the empty string, finishes at once with the chat unchanged: the messages, the loading
  flag and the input field are as they were, and no request is issued.
\<close>

theorem blank_send_is_noop:
  assumes "(\<forall>c\<in>set (input s). is_js_whitespace c) \<or> apiKey = []"
  shows "handleSend_begin apiKey now date s = Finished s"
  using assms by (auto simp: handleSend_begin_def trim_empty_iff)

text \<open>A space, a tab and a line feed as input; and a real input with an empty key.\<close>

theorem blank_send_is_noop_witness:
  "is_js_whitespace 32 \<and> is_js_whitespace 9 \<and> is_js_whitespace 10 \<and>
   handleSend_begin (js ''key'') 7 7 ((chat_initial 0)\<lparr>input := [32, 9, 10]\<rparr>) =
     Finished ((chat_initial 0)\<lparr>input := [32, 9, 10]\<rparr>) \<and>
   handleSend_begin [] 7 7 ((chat_initial 0)\<lparr>input := js ''hi''\<rparr>) =
     Finished ((chat_initial 0)\<lparr>input := js ''hi''\<rparr>)"
proof -
  have w: "is_js_whitespace 32" "is_js_whitespace 9" "is_js_whitespace 10"
    by (simp_all add: is_js_whitespace_def)
  then have h: "(\<forall>c\<in>set (input ((chat_initial 0)\<lparr>input := [32, 9, 10]\<rparr>)). is_js_whitespace c)"
    by simp
  show ?thesis
    using w blank_send_is_noop [of "(chat_initial 0)\<lparr>input := [32, 9, 10]\<rparr>" "js ''key''" 7 7]
      blank_send_is_noop [of "(chat_initial 0)\<lparr>input := js ''hi''\<rparr>" "[]" 7 7]
    by simp
qed

section \<open>Encoding samples as 16-bit PCM\<close>

lemma clamp_sample_id: "- 1 \<le> x \<Longrightarrow> x \<le> 1 \<Longrightarrow> clamp_sample x = x"
  by (simp add: clamp_sample_def)

lemma clamp_sample_range: "- 1 \<le> clamp_sample x \<and> clamp_sample x \<le> 1"
  by (simp add: clamp_sample_def)

lemma truncate_close: "\<bar>real_of_int (truncate y) - y\<bar> < 1"
proof (cases "y < 0")
  case True
  then show ?thesis by (simp add: truncate_def) linarith
next
  case False
  then show ?thesis by (simp add: truncate_def) linarith
qed

lemma truncate_neg_range:
  assumes "- 32768 \<le> y" and "y < 0"
  shows "- 32768 \<le> truncate y \<and> truncate y \<le> 0"
proof -
  have "\<lceil>y\<rceil> \<le> 0" using assms(2) by (simp add: ceiling_le_iff)
  moreover have "- 32768 \<le> \<lceil>y\<rceil>" using assms(1) by linarith
  ultimately show ?thesis using assms(2) by (simp add: truncate_def)
qed

lemma truncate_pos_range:
  assumes "0 \<le> y" and "y \<le> 32767"
  shows "0 \<le> truncate y \<and> truncate y \<le> 32767"
proof -
  have "\<lfloor>y\<rfloor> \<le> 32767" using assms(2) by linarith
  moreover have "0 \<le> \<lfloor>y\<rfloor>" using assms(1) by simp
  ultimately show ?thesis using assms(1) by (simp add: truncate_def)
qed

lemma sint_to_int16:
  assumes "- 32768 \<le> truncate y" and "truncate y \<le> 32767"
  shows "sint (to_int16 y) = truncate y"
proof -
  have "signed_take_bit 15 (truncate y) = truncate y"
    using assms by (simp add: signed_take_bit_int_eq_self)
  then show ?thesis
    by (simp add: to_int16_def sint_sbintrunc')
qed

lemma encode_sample_value:
  assumes "- 1 \<le> x" and "x \<le> 1"
  shows "sint (encode_sample x) = (if x < 0 then truncate (x * 32768) else truncate (x * 32767))"
proof (cases "x < 0")
  case True
  have "- 32768 \<le> x * 32768" "x * 32768 < 0" using assms(1) True by simp_all
  from truncate_neg_range [OF this] have "sint (to_int16 (x * 32768)) = truncate (x * 32768)"
    by (intro sint_to_int16) simp_all
  then show ?thesis
    using True assms by (simp add: encode_sample_def clamp_sample_id)
next
  case False
  have "0 \<le> x * 32767" "x * 32767 \<le> 32767" using assms(2) False by simp_all
  from truncate_pos_range [OF this] have "sint (to_int16 (x * 32767)) = truncate (x * 32767)"
    by (intro sint_to_int16) simp_all
  then show ?thesis
    using False assms by (simp add: encode_sample_def clamp_sample_id)
qed

lemma encode_sample_close_to_reference:
  assumes "- 1 \<le> x" and "x \<le> 1"
  shows "\<bar>sint (encode_sample x) - reference_int16 x\<bar> \<le> 1"
proof (cases "x < 0")
  case True
  have "- 32768 \<le> x * 32768" "x * 32768 < 0" using assms(1) True by simp_all
  from truncate_neg_range [OF this] have "reference_int16 x = truncate (x * 32768)"
    using assms by (simp add: reference_int16_def clamp_sample_id)
  then show ?thesis
    using True by (simp add: encode_sample_value [OF assms])
next
  case False
  then have x: "0 \<le> x" by simp
  have a: "\<lfloor>x * 32767\<rfloor> \<le> \<lfloor>x * 32768\<rfloor>"
    using x by (intro floor_mono) simp
  have "x * 32768 \<le> x * 32767 + 1" using assms(2) by simp
  then have "\<lfloor>x * 32768\<rfloor> \<le> \<lfloor>x * 32767 + 1\<rfloor>" by (rule floor_mono)
  then have b: "\<lfloor>x * 32768\<rfloor> \<le> \<lfloor>x * 32767\<rfloor> + 1" by simp
  have c: "\<lfloor>x * 32767\<rfloor> \<le> 32767" using assms(2) by linarith
  have enc: "sint (encode_sample x) = \<lfloor>x * 32767\<rfloor>"
    using False x by (simp add: encode_sample_value [OF assms] truncate_def)
  have ref: "reference_int16 x = max (- 32768) (min 32767 \<lfloor>x * 32768\<rfloor>)"
    using x assms by (simp add: reference_int16_def clamp_sample_id truncate_def)
  have "0 \<le> \<lfloor>x * 32767\<rfloor>" using x by simp
  with a b c show ?thesis
    unfolding enc ref by linarith
qed

lemma little_endian_value:
  "uint (little_endian w ! 0) + 256 * uint (little_endian w ! 1) = uint w"
proof -
  have lo: "uint (ucast w :: 8 word) = uint w mod 256"
    by (simp add: unsigned_ucast_eq take_bit_eq_mod)
  have small: "uint w < 65536" "0 \<le> uint w" using uint_lt2p [of w] by simp_all
  have "uint (ucast (drop_bit 8 w) :: 8 word) =
      take_bit 8 (drop_bit 8 (take_bit 16 (uint w)))"
    by (simp only: unsigned_ucast_eq unsigned_drop_bit_eq) simp
  also have "\<dots> = ((uint w mod 65536) div 256) mod 256"
    by (simp only: take_bit_eq_mod drop_bit_eq_div) simp
  also have "\<dots> = uint w div 256"
  proof -
    have "uint w div 256 < 256" using small(1) by simp
    moreover have "0 \<le> uint w div 256" by (simp add: pos_imp_zdiv_nonneg_iff)
    ultimately show ?thesis using small(1) by (simp add: mod_pos_pos_trivial)
  qed
  finally have hi: "uint (ucast (drop_bit 8 w) :: 8 word) = uint w div 256" .
  show ?thesis
    by (simp add: little_endian_def lo hi)
qed

lemma length_pcm_bytes: "length (pcm_bytes buffer) = 2 * length buffer"
  by (induction buffer) (simp_all add: pcm_bytes_def pcm_int16_def little_endian_def)

lemma pcm_bytes_nth:
  "i < length buffer \<Longrightarrow>
   pcm_bytes buffer ! (2 * i) = little_endian (encode_sample (buffer ! i)) ! 0 \<and>
   pcm_bytes buffer ! (2 * i + 1) = little_endian (encode_sample (buffer ! i)) ! 1"
proof (induction buffer arbitrary: i)
  case Nil
  then show ?case by simp
next
  case (Cons x xs)
  have unfold: "pcm_bytes (x # xs) = little_endian (encode_sample x) @ pcm_bytes xs"
    by (simp add: pcm_bytes_def pcm_int16_def)
  have two: "length (little_endian (encode_sample x)) = 2"
    by (simp add: little_endian_def)
  show ?case
  proof (cases i)
    case 0
    then show ?thesis by (simp add: unfold little_endian_def)
  next
    case (Suc j)
    with Cons.prems have "j < length xs" by simp
    from Cons.IH [OF this] show ?thesis
      using Suc by (simp add: unfold nth_append two)
  qed
qed

lemma encode_sample_clamps:
  "1 \<le> x \<Longrightarrow> sint (encode_sample x) = 32767"
  "x \<le> - 1 \<Longrightarrow> sint (encode_sample x) = - 32768"
proof -
  show "sint (encode_sample x) = 32767" if "1 \<le> x"
  proof -
    have "clamp_sample x = 1" using that by (simp add: clamp_sample_def)
    then show ?thesis by (simp add: encode_sample_def to_int16_def truncate_def)
  qed
  show "sint (encode_sample x) = - 32768" if "x \<le> - 1"
  proof -
    have "clamp_sample x = - 1" using that by (simp add: clamp_sample_def)
    then show ?thesis by (simp add: encode_sample_def to_int16_def truncate_def)
  qed
qed

text \<open>
  Claim C4. For a buffer whose samples lie in [-1, 1] the encoder gives one 16-bit integer
  per sample, in [-32768, 32767]: the sample times 32768 when it is negative and times
  32767 otherwise, with the fraction dropped. That integer is less than one unit away from
  the scaled sample and at most one unit away from the reference conversion. Each integer
  becomes two bytes, low byte first. Samples beyond the range are clamped: 1 or more gives
  32767, -1 or less gives -32768.
\<close>

theorem pcm_encoder_int16:
  assumes "\<forall>x\<in>set buffer. - 1 \<le> x \<and> x \<le> 1"
  shows "length (pcm_int16 buffer) = length buffer \<and>
         length (pcm_bytes buffer) = 2 * length buffer \<and>
         (\<forall>i<length buffer.
            - 32768 \<le> sint (pcm_int16 buffer ! i) \<and> sint (pcm_int16 buffer ! i) \<le> 32767 \<and>
            sint (pcm_int16 buffer ! i) =
              (if buffer ! i < 0 then truncate (buffer ! i * 32768)
               else truncate (buffer ! i * 32767)) \<and>
            \<bar>real_of_int (sint (pcm_int16 buffer ! i)) -
               (if buffer ! i < 0 then buffer ! i * 32768 else buffer ! i * 32767)\<bar> < 1 \<and>
            \<bar>sint (pcm_int16 buffer ! i) - reference_int16 (buffer ! i)\<bar> \<le> 1 \<and>
            uint (pcm_bytes buffer ! (2 * i)) + 256 * uint (pcm_bytes buffer ! (2 * i + 1)) =
              uint (pcm_int16 buffer ! i)) \<and>
         (\<forall>x. 1 \<le> x \<longrightarrow> sint (encode_sample x) = 32767) \<and>
         (\<forall>x. x \<le> - 1 \<longrightarrow> sint (encode_sample x) = - 32768)"
proof -
  have each: "- 32768 \<le> sint (pcm_int16 buffer ! i) \<and> sint (pcm_int16 buffer ! i) \<le> 32767 \<and>
            sint (pcm_int16 buffer ! i) =
              (if buffer ! i < 0 then truncate (buffer ! i * 32768)
               else truncate (buffer ! i * 32767)) \<and>
            \<bar>real_of_int (sint (pcm_int16 buffer ! i)) -
               (if buffer ! i < 0 then buffer ! i * 32768 else buffer ! i * 32767)\<bar> < 1 \<and>
            \<bar>sint (pcm_int16 buffer ! i) - reference_int16 (buffer ! i)\<bar> \<le> 1 \<and>
            uint (pcm_bytes buffer ! (2 * i)) + 256 * uint (pcm_bytes buffer ! (2 * i + 1)) =
              uint (pcm_int16 buffer ! i)"
    if i: "i < length buffer" for i
  proof -
    let ?x = "buffer ! i"
    have r: "- 1 \<le> ?x" "?x \<le> 1" using assms i by simp_all
    have nth: "pcm_int16 buffer ! i = encode_sample ?x"
      using i by (simp add: pcm_int16_def)
    have range: "- 32768 \<le> sint (encode_sample ?x) \<and> sint (encode_sample ?x) \<le> 32767"
      using sint_ge [of "encode_sample ?x"] sint_lt [of "encode_sample ?x"] by simp
    note v = encode_sample_value [OF r]
    have close: "\<bar>real_of_int (sint (encode_sample ?x)) -
               (if ?x < 0 then ?x * 32768 else ?x * 32767)\<bar> < 1"
      using truncate_close [of "?x * 32768"] truncate_close [of "?x * 32767"]
      by (simp add: v)
    have bytes: "uint (pcm_bytes buffer ! (2 * i)) + 256 * uint (pcm_bytes buffer ! (2 * i + 1)) =
              uint (encode_sample ?x)"
      using pcm_bytes_nth [OF i] little_endian_value [of "encode_sample ?x"] by simp
    show ?thesis
      unfolding nth
      using range v close encode_sample_close_to_reference [OF r] bytes by blast
  qed
  have "length (pcm_int16 buffer) = length buffer"
    by (simp add: pcm_int16_def)
  then show ?thesis
    using each length_pcm_bytes encode_sample_clamps by blast
qed

lemma encode_sample_half: "encode_sample (1 / 2) = 16383"
  by (simp add: encode_sample_def clamp_sample_def to_int16_def truncate_def)

lemma encode_sample_minus_half: "encode_sample (- (1 / 2)) = - 16384"
  by (simp add: encode_sample_def clamp_sample_def to_int16_def truncate_def)

text \<open>
  The samples 1/2 and -1/2 become 16383 and -16384, the bytes FF 3F 00 C0; the reference
  gives 16384 for 1/2.
\<close>

theorem pcm_encoder_int16_witness:
  "- 1 \<le> (1 / 2 :: real) \<and> (1 / 2 :: real) \<le> 1 \<and> - 1 \<le> (- (1 / 2) :: real) \<and>
   sint (pcm_int16 [1 / 2, - (1 / 2)] ! 0) = 16383 \<and>
   sint (pcm_int16 [1 / 2, - (1 / 2)] ! 1) = - 16384 \<and>
   reference_int16 (1 / 2) = 16384 \<and>
   pcm_bytes [1 / 2, - (1 / 2)] = [255, 63, 0, 192] \<and>
   length (pcm_bytes [1 / 2, - (1 / 2)]) = 4"
proof -
  have h: "\<forall>x\<in>set [1 / 2, - (1 / 2) :: real]. - 1 \<le> x \<and> x \<le> 1"
    by simp
  have r: "reference_int16 (1 / 2) = 16384"
    by (simp add: reference_int16_def clamp_sample_def truncate_def)
  have b: "pcm_bytes [1 / 2, - (1 / 2)] = [255, 63, 0, 192]"
    by (simp add: pcm_bytes_def pcm_int16_def encode_sample_half encode_sample_minus_half
        little_endian_def drop_bit_eq_div)
  show ?thesis
    using pcm_encoder_int16 [OF h] r b
    by (simp add: pcm_int16_def encode_sample_half encode_sample_minus_half)
qed

end
